theory Spec2Isabelle
  imports Complex_Main "HOL-Library.Word" "HOL-Library.Char_ord" "HOL-Library.List_Lexorder"
begin

section \<open>Bytes, strings and native integer packing\<close>

text \<open>
  A \<open>std::vector<uint8_t>\<close> is a list of 8-bit words, a \<open>std::string\<close> a list of
  characters (bytes), and a \<open>size_t\<close> offset or length a natural number: the handlers
  run on a 64-bit \<open>size_t\<close> and add at most three 32-bit lengths and a small
  constant to an offset, so no offset wraps. The source copies integers to and from the
  wire with \<open>memcpy\<close> and pointer casts, that is in the byte order of the host; the
  model fixes the little-endian host the wire format is documented for.
\<close>

type_synonym byte = "8 word"
type_synonym bytes = "byte list"

text \<open>Everything the source can do other than return normally.\<close>

datatype error =
    OutOfBoundsRead       \<comment> \<open>a read past the end of a vector (undefined behaviour in C++)\<close>
  | RuntimeError string   \<comment> \<open>\<open>throw std::runtime_error(msg)\<close>\<close>
  | AlreadyScheduled      \<comment> \<open>\<open>scheduleAt\<close> on a message that is still scheduled\<close>
  | NotDue                \<comment> \<open>a self message fires that is not scheduled for this time\<close>

fun le_encode :: "nat \<Rightarrow> nat \<Rightarrow> bytes" where
  "le_encode 0 v = []"
| "le_encode (Suc n) v = of_nat (v mod 256) # le_encode n (v div 256)"

fun le_decode :: "bytes \<Rightarrow> nat" where
  "le_decode [] = 0"
| "le_decode (b # bs) = unat b + 256 * le_decode bs"

text \<open>The four bytes of a \<open>uint32_t\<close> and the eight bytes of a \<open>uint64_t\<close>.\<close>

definition u32_bytes :: "32 word \<Rightarrow> bytes" where
  "u32_bytes w = le_encode 4 (unat w)"

definition u64_bytes :: "64 word \<Rightarrow> bytes" where
  "u64_bytes w = le_encode 8 (unat w)"

definition u32_of_bytes :: "bytes \<Rightarrow> 32 word" where
  "u32_of_bytes bs = of_nat (le_decode bs)"

definition u64_of_bytes :: "bytes \<Rightarrow> 64 word" where
  "u64_of_bytes bs = of_nat (le_decode bs)"

text \<open>\<open>uint32_t n = v.size()\<close>: the size, truncated to 32 bits.\<close>

definition size_u32 :: "'a list \<Rightarrow> 32 word" where
  "size_u32 xs = of_nat (length xs)"

text \<open>Conversions between \<open>char\<close> and \<open>uint8_t\<close> ranges.\<close>

definition bytes_of_string :: "string \<Rightarrow> bytes" where
  "bytes_of_string s = map (\<lambda>c. of_nat (of_char c)) s"

definition string_of_bytes :: "bytes \<Rightarrow> string" where
  "string_of_bytes bs = map (\<lambda>b. char_of (unat b)) bs"

text \<open>
  \<open>std::memcpy(&x, &data[offset], 4)\<close> and the iterator range
  \<open>data.begin() + offset, data.begin() + offset + n\<close> do no bounds check of their own.
  The model returns \<open>OutOfBoundsRead\<close> exactly where the source would read past the end
  of \<open>data\<close>.
\<close>

definition read_u32 :: "bytes \<Rightarrow> nat \<Rightarrow> error + 32 word" where
  "read_u32 data offset =
     (if offset + 4 \<le> length data then Inr (u32_of_bytes (take 4 (drop offset data)))
      else Inl OutOfBoundsRead)"

definition read_u64 :: "bytes \<Rightarrow> nat \<Rightarrow> error + 64 word" where
  "read_u64 data offset =
     (if offset + 8 \<le> length data then Inr (u64_of_bytes (take 8 (drop offset data)))
      else Inl OutOfBoundsRead)"

definition read_range :: "bytes \<Rightarrow> nat \<Rightarrow> nat \<Rightarrow> error + bytes" where
  "read_range data offset n =
     (if offset + n \<le> length data then Inr (take n (drop offset data))
      else Inl OutOfBoundsRead)"

section \<open>ZKProof and its wire form (ZKPModule.cc)\<close>

record ZKProof =
  proofData :: bytes
  commitment :: bytes
  challenge :: string
  timestamp :: "64 word"

definition serialize :: "ZKProof \<Rightarrow> bytes" where
  "serialize p =
     u32_bytes (size_u32 (proofData p)) @ proofData p @
     u32_bytes (size_u32 (commitment p)) @ commitment p @
     u32_bytes (size_u32 (challenge p)) @ bytes_of_string (challenge p) @
     u64_bytes (timestamp p)"

text \<open>Sequencing of steps that may fail: the first failure ends the function.\<close>

definition bind_err :: "error + 'a \<Rightarrow> ('a \<Rightarrow> error + 'b) \<Rightarrow> error + 'b" where
  "bind_err r f = (case r of Inl e \<Rightarrow> Inl e | Inr x \<Rightarrow> f x)"

definition deserialize :: "bytes \<Rightarrow> error + ZKProof" where
  "deserialize data =
     bind_err (read_u32 data 0) (\<lambda>proofSize.
     bind_err (read_range data 4 (unat proofSize)) (\<lambda>pd.
     let offset = 4 + unat proofSize in
     bind_err (read_u32 data offset) (\<lambda>commitSize.
     bind_err (read_range data (offset + 4) (unat commitSize)) (\<lambda>cm.
     let offset = offset + 4 + unat commitSize in
     bind_err (read_u32 data offset) (\<lambda>chalLen.
     bind_err (read_range data (offset + 4) (unat chalLen)) (\<lambda>ch.
     let offset = offset + 4 + unat chalLen in
     bind_err (read_u64 data offset) (\<lambda>ts.
     Inr \<lparr>proofData = pd, commitment = cm, challenge = string_of_bytes ch,
          timestamp = ts\<rparr>)))))))"

section \<open>ZKPModule: the proof engine (ZKPModule.h, ZKPModule.cc)\<close>

text \<open>
  Clock readings and random bytes come from outside the program. A handler call receives
  them in an environment: \<open>sysclock\<close> is the tick count of
  \<open>std::chrono::system_clock::now().time_since_epoch().count()\<close> (a signed 64-bit
  count of nanoseconds on the platform the constant \<open>5000000000LL\<close> is written for),
  \<open>entropy\<close> the bytes \<open>RAND_bytes\<close> delivers in the order they are asked for, and
  \<open>elapsed_ms\<close> the difference of the two \<open>high_resolution_clock\<close> readings of a
  verification, in milliseconds.
\<close>

record env =
  sysclock :: "64 word"
  entropy :: "nat \<Rightarrow> byte"
  elapsed_ms :: real

record ProofStats =
  proofSize :: nat
  commitmentSize :: nat
  generationTime :: real
  verificationTime :: real

record ZKPModule =
  privateSecret :: bytes
  publicCommitment :: bytes
  droneId :: string
  sessionNonce :: bytes
  provingKey :: bytes
  verificationKey :: bytes
  lastStats :: ProofStats
  proverInitialized :: bool
  verifierInitialized :: bool
  keysGenerated :: bool
  lastChallenge :: string

definition SHA256_DIGEST_LENGTH :: nat where
  "SHA256_DIGEST_LENGTH = 32"

text \<open>The default constructor \<open>ZKPModule()\<close>.\<close>

definition ZKPModule_new :: ZKPModule where
  "ZKPModule_new =
     \<lparr>privateSecret = [], publicCommitment = [], droneId = [], sessionNonce = [],
      provingKey = [], verificationKey = [],
      lastStats = \<lparr>proofSize = 0, commitmentSize = 0, generationTime = 0,
                   verificationTime = 0\<rparr>,
      proverInitialized = False, verifierInitialized = False, keysGenerated = False,
      lastChallenge = []\<rparr>"

text \<open>\<open>generateRandomBytes(length)\<close>, reading the entropy stream from position \<open>pos\<close>.\<close>

definition generateRandomBytes :: "(nat \<Rightarrow> byte) \<Rightarrow> nat \<Rightarrow> nat \<Rightarrow> bytes" where
  "generateRandomBytes rnd pos n = map rnd [pos ..< pos + n]"

text \<open>\<open>setup()\<close>, that is \<open>generateKeys()\<close>: two draws of 64 random bytes.\<close>

definition zkp_setup :: "ZKPModule \<Rightarrow> (nat \<Rightarrow> byte) \<Rightarrow> ZKPModule" where
  "zkp_setup m rnd =
     m\<lparr>provingKey := generateRandomBytes rnd 0 64,
       verificationKey := generateRandomBytes rnd 64 64,
       keysGenerated := True\<rparr>"

text \<open>
  The prover side. \<open>SHA256\<close> is OpenSSL's; the functions take it as the parameter
  \<open>H\<close>. \<open>initializeProver\<close> draws its 32-byte nonce from the entropy stream at
  position \<open>pos\<close>.
\<close>

definition combineVectors :: "bytes list \<Rightarrow> bytes" where
  "combineVectors vectors = concat vectors"

definition initializeProver ::
  "(bytes \<Rightarrow> bytes) \<Rightarrow> ZKPModule \<Rightarrow> string \<Rightarrow> string \<Rightarrow> (nat \<Rightarrow> byte) \<Rightarrow> nat \<Rightarrow> ZKPModule" where
  "initializeProver H m ident pw rnd pos =
     (let nonce = generateRandomBytes rnd pos 32;
          combined = combineVectors [bytes_of_string ident, bytes_of_string pw, nonce]
      in m\<lparr>droneId := ident, privateSecret := H combined, sessionNonce := nonce,
           proverInitialized := True\<rparr>)"

definition createCommitment :: "(bytes \<Rightarrow> bytes) \<Rightarrow> ZKPModule \<Rightarrow> error + ZKPModule" where
  "createCommitment H m =
     (if \<not> proverInitialized m then Inl (RuntimeError ''Prover not initialized'')
      else Inr (m\<lparr>publicCommitment := H (combineVectors [privateSecret m, sessionNonce m])\<rparr>))"

definition generateProof ::
  "(bytes \<Rightarrow> bytes) \<Rightarrow> ZKPModule \<Rightarrow> string \<Rightarrow> 64 word \<Rightarrow> real \<Rightarrow> error + ZKProof \<times> ZKPModule" where
  "generateProof H m c now elapsed =
     (if \<not> proverInitialized m then Inl (RuntimeError ''Prover not initialized'')
      else
        let proofInput = combineVectors [privateSecret m, bytes_of_string c, sessionNonce m];
            prf = \<lparr>proofData = H proofInput, commitment = publicCommitment m, challenge = c,
                   timestamp = now\<rparr>
        in Inr (prf, m\<lparr>lastStats := (lastStats m)
                         \<lparr>generationTime := elapsed,
                          proofSize := length (proofData prf),
                          commitmentSize := length (commitment prf)\<rparr>\<rparr>))"

definition getCommitment :: "ZKPModule \<Rightarrow> bytes" where
  "getCommitment m = publicCommitment m"

definition initializeVerifier :: "ZKPModule \<Rightarrow> bytes \<Rightarrow> string \<Rightarrow> ZKPModule" where
  "initializeVerifier m cm ident =
     m\<lparr>publicCommitment := cm, droneId := ident, verifierInitialized := True\<rparr>"

text \<open>
  \<open>bytesToHex\<close>: two lower-case hexadecimal digits per byte
  (\<open>std::hex\<close>, \<open>setfill('0')\<close>, \<open>setw(2)\<close>).
\<close>

definition hex_digit :: "nat \<Rightarrow> char" where
  "hex_digit n = ''0123456789abcdef'' ! (n mod 16)"

definition bytesToHex :: "bytes \<Rightarrow> string" where
  "bytesToHex bs = concat (map (\<lambda>b. [hex_digit (unat b div 16), hex_digit (unat b mod 16)]) bs)"

text \<open>The decimal digits \<open>operator<<\<close> prints for a \<open>long\<close>.\<close>

function dec_of_nat :: "nat \<Rightarrow> string" where
  "dec_of_nat n =
     (if n < 10 then [''0123456789'' ! n]
      else dec_of_nat (n div 10) @ [''0123456789'' ! (n mod 10)])"
  by pat_completeness auto
termination
  by (relation "measure id") auto

declare dec_of_nat.simps [simp del]

definition dec_of_int :: "int \<Rightarrow> string" where
  "dec_of_int i = (if i < 0 then CHR ''-'' # dec_of_nat (nat (- i)) else dec_of_nat (nat i))"

text \<open>
  \<open>generateChallenge()\<close>: the text \<open>CHALLENGE_<now>_<hex>\<close>, where \<open>hex\<close> is the
  first 16 characters of the hexadecimal form of 16 random bytes. The challenge is also
  kept in \<open>lastChallenge\<close>.
\<close>

definition generateChallenge ::
  "ZKPModule \<Rightarrow> 64 word \<Rightarrow> (nat \<Rightarrow> byte) \<Rightarrow> nat \<Rightarrow> string \<times> ZKPModule" where
  "generateChallenge m now rnd pos =
     (let randomBytes = generateRandomBytes rnd pos 16;
          c = ''CHALLENGE_'' @ dec_of_int (sint now) @ ''_'' @ take 16 (bytesToHex randomBytes)
      in (c, m\<lparr>lastChallenge := c\<rparr>))"

text \<open>
  \<open>std::abs\<close> on \<open>int64_t\<close> and the subtraction before it are machine operations on
  64 bits: the model wraps around as the two's-complement hardware does (the C++ standard
  leaves a signed overflow undefined).
\<close>

definition abs64 :: "64 word \<Rightarrow> 64 word" where
  "abs64 d = (if sint d < 0 then - d else d)"

text \<open>
  \<open>verifyProof\<close>. It throws when the verifier is not initialised, returns \<open>false\<close>
  from each of its three checks, and stores the measured time in \<open>lastStats\<close> on the
  one path that reaches the end.
\<close>

definition verifyProof ::
  "ZKPModule \<Rightarrow> ZKProof \<Rightarrow> 64 word \<Rightarrow> real \<Rightarrow> error + bool \<times> ZKPModule" where
  "verifyProof m prf now elapsed =
     (if \<not> verifierInitialized m then Inl (RuntimeError ''Verifier not initialized'')
      else if length (proofData prf) \<noteq> SHA256_DIGEST_LENGTH then Inr (False, m)
      else if commitment prf \<noteq> publicCommitment m then Inr (False, m)
      else
        let timeDiff = abs64 (now - timestamp prf) in
        if sint timeDiff > 5000000000 then Inr (False, m)
        else Inr (True, m\<lparr>lastStats := (lastStats m)\<lparr>verificationTime := elapsed\<rparr>\<rparr>))"

definition getLastProofStats :: "ZKPModule \<Rightarrow> ProofStats" where
  "getLastProofStats m = lastStats m"

section \<open>GroundStation: the server (GroundStation.h, GroundStation.cc)\<close>

text \<open>
  A \<open>std::map\<close> is an association list kept in the order of its keys, which is the
  order a range-for loop visits. \<open>std::string\<close> compares byte by byte as unsigned
  characters, a proper prefix first: the order of \<open>string\<close> here.
\<close>

definition stdmap_find :: "'k \<Rightarrow> ('k \<times> 'v) list \<Rightarrow> 'v option" where
  "stdmap_find k m = map_of m k"

fun stdmap_assign :: "'k::linorder \<Rightarrow> 'v \<Rightarrow> ('k \<times> 'v) list \<Rightarrow> ('k \<times> 'v) list" where
  "stdmap_assign k v [] = [(k, v)]"
| "stdmap_assign k v ((k', v') # m) =
     (if k < k' then (k, v) # (k', v') # m
      else if k = k' then (k, v) # m
      else (k', v') # stdmap_assign k v m)"

definition stdmap_erase :: "'k \<Rightarrow> ('k \<times> 'v) list \<Rightarrow> ('k \<times> 'v) list" where
  "stdmap_erase k m = filter (\<lambda>kv. fst kv \<noteq> k) m"

text \<open>The representation invariant of a \<open>std::map\<close>: keys strictly ascending.\<close>

definition stdmap_inv :: "('k::linorder \<times> 'v) list \<Rightarrow> bool" where
  "stdmap_inv m = sorted_wrt (<) (map fst m)"

type_synonym port = "32 word"

text \<open>
  The server's fields. \<open>droneVerifiers\<close> holds the verifier objects themselves: each
  pointer of the source is created by one \<open>new\<close> and stored under one key, so no two
  entries share an object. \<open>socketOut\<close> lists the datagrams handed to
  \<open>socket.sendTo\<close>, oldest first. Logging, signals and the port number the socket is
  bound to are left out. The address type \<open>'a\<close> stands for \<open>inet::L3Address\<close>.
\<close>

record 'a GroundStation =
  droneVerifiers :: "(string \<times> ZKPModule) list"
  pendingChallenges :: "(string \<times> string) list"
  droneAddresses :: "(string \<times> 'a \<times> port) list"
  numAuthRequests :: "32 word"
  numAuthSuccess :: "32 word"
  numAuthFailures :: "32 word"
  socketOut :: "(bytes \<times> 'a \<times> port) list"

definition authorizedDrones :: "string set" where
  "authorizedDrones =
     {''DRONE_001'', ''DRONE_002'', ''DRONE_003'', ''DRONE_004'', ''DRONE_005''}"

definition sendPacket ::
  "'a GroundStation \<Rightarrow> bytes \<Rightarrow> 'a \<Rightarrow> port \<Rightarrow> 'a GroundStation" where
  "sendPacket s data destAddr destPort = s\<lparr>socketOut := socketOut s @ [(data, destAddr, destPort)]\<rparr>"

definition sendAuthSuccess :: "'a GroundStation \<Rightarrow> 'a \<Rightarrow> port \<Rightarrow> 'a GroundStation" where
  "sendAuthSuccess s destAddr destPort = sendPacket s [0x04] destAddr destPort"

definition sendAuthFailure :: "'a GroundStation \<Rightarrow> 'a \<Rightarrow> port \<Rightarrow> 'a GroundStation" where
  "sendAuthFailure s destAddr destPort = sendPacket s [0x05] destAddr destPort"

text \<open>
  The byte strings of the messages that carry a payload, as
  \<open>DroneAuthApp::sendAuthenticationRequest\<close>, \<open>GroundStation::handleAuthRequest\<close> and
  \<open>DroneAuthApp::sendZKProof\<close> build them.
\<close>

definition auth_request_message :: "string \<Rightarrow> bytes \<Rightarrow> bytes" where
  "auth_request_message ident cm =
     0x01 # u32_bytes (size_u32 ident) @ bytes_of_string ident @ u32_bytes (size_u32 cm) @ cm"

definition challenge_message :: "string \<Rightarrow> bytes" where
  "challenge_message c = 0x02 # u32_bytes (size_u32 c) @ bytes_of_string c"

definition proof_message :: "ZKProof \<Rightarrow> bytes" where
  "proof_message prf = 0x03 # serialize prf"

text \<open>
  \<open>handleAuthRequest\<close>. Every length is checked against \<open>data.size()\<close> before the
  bytes it covers are read, so no read of this handler leaves the buffer.
\<close>

definition handleAuthRequest ::
  "env \<Rightarrow> 'a GroundStation \<Rightarrow> bytes \<Rightarrow> 'a \<Rightarrow> port \<Rightarrow> 'a GroundStation" where
  "handleAuthRequest ev s0 data srcAddr srcPort =
     (let s = s0\<lparr>numAuthRequests := numAuthRequests s0 + 1\<rparr> in
      if length data < 9 then sendAuthFailure s srcAddr srcPort
      else
        let idLen = unat (u32_of_bytes (take 4 (drop 1 data))) in
        if length data < 5 + idLen + 4 then sendAuthFailure s srcAddr srcPort
        else
          let ident = string_of_bytes (take idLen (drop 5 data)) in
          if ident \<notin> authorizedDrones
          then (sendAuthFailure s srcAddr srcPort)\<lparr>numAuthFailures := numAuthFailures s + 1\<rparr>
          else
            let offset = 5 + idLen;
                commitLen = unat (u32_of_bytes (take 4 (drop offset data)));
                offset = offset + 4
            in
            if length data < offset + commitLen then sendAuthFailure s srcAddr srcPort
            else
              let cm = take commitLen (drop offset data);
                  found = stdmap_find ident (droneVerifiers s);
                  verifier = (case found of
                      None \<Rightarrow> initializeVerifier (zkp_setup ZKPModule_new (entropy ev)) cm ident
                    | Some v \<Rightarrow> v);
                  pos = (case found of None \<Rightarrow> 128 | Some v \<Rightarrow> 0);
                  (c, verifier') = generateChallenge verifier (sysclock ev) (entropy ev) pos;
                  s1 = s\<lparr>droneVerifiers := stdmap_assign ident verifier' (droneVerifiers s),
                         pendingChallenges := stdmap_assign ident c (pendingChallenges s),
                         droneAddresses := stdmap_assign ident (srcAddr, srcPort) (droneAddresses s)\<rparr>
              in sendPacket s1 (challenge_message c) srcAddr srcPort)"

text \<open>
  The loop of \<open>handleProof\<close> over \<open>pendingChallenges\<close>: the key of the first entry
  whose challenge is the proof's, the empty string when there is none.
\<close>

fun find_challenge :: "(string \<times> string) list \<Rightarrow> string \<Rightarrow> string" where
  "find_challenge [] c = []"
| "find_challenge ((k, v) # m) c = (if v = c then k else find_challenge m c)"

text \<open>
  \<open>handleProof\<close>. The \<open>catch\<close> clause answers an exception of
  \<open>ZKProof::deserialize\<close> with AUTH_FAILURE; a read past the end of the buffer is no
  exception and is the outcome of the handler. An exception of \<open>verifyProof\<close> is not
  caught here and leaves the handler.
\<close>

definition handleProof ::
  "env \<Rightarrow> 'a GroundStation \<Rightarrow> bytes \<Rightarrow> 'a \<Rightarrow> port \<Rightarrow> error + 'a GroundStation" where
  "handleProof ev s data srcAddr srcPort =
     (if length data < 2 then Inr (sendAuthFailure s srcAddr srcPort)
      else
        (case deserialize (drop 1 data) of
           Inl (RuntimeError msg) \<Rightarrow> Inr (sendAuthFailure s srcAddr srcPort)
         | Inl e \<Rightarrow> Inl e
         | Inr prf \<Rightarrow>
             let ident = find_challenge (pendingChallenges s) (challenge prf) in
             if ident = [] then Inr (sendAuthFailure s srcAddr srcPort)
             else
               (case stdmap_find ident (droneVerifiers s) of
                  None \<Rightarrow> Inr (sendAuthFailure s srcAddr srcPort)
                | Some verifier \<Rightarrow>
                    (case verifyProof verifier prf (sysclock ev) (elapsed_ms ev) of
                       Inl e \<Rightarrow> Inl e
                     | Inr (isValid, verifier') \<Rightarrow>
                         let s1 = s\<lparr>droneVerifiers :=
                                      stdmap_assign ident verifier' (droneVerifiers s)\<rparr>
                         in
                         if isValid
                         then Inr ((sendAuthSuccess
                                      (s1\<lparr>numAuthSuccess := numAuthSuccess s1 + 1\<rparr>)
                                      srcAddr srcPort)
                                   \<lparr>pendingChallenges := stdmap_erase ident (pendingChallenges s1)\<rparr>)
                         else Inr (sendAuthFailure
                                     (s1\<lparr>numAuthFailures := numAuthFailures s1 + 1\<rparr>)
                                     srcAddr srcPort)))))"

text \<open>What the simulation kernel delivers to a module that is up.\<close>

datatype 'a message =
    Packet bytes 'a port     \<comment> \<open>a datagram with its source address and port\<close>
  | Indication               \<comment> \<open>any message that is not a \<open>Packet\<close>\<close>

definition handleMessageWhenUp ::
  "env \<Rightarrow> 'a GroundStation \<Rightarrow> 'a message \<Rightarrow> error + 'a GroundStation" where
  "handleMessageWhenUp ev s msg =
     (case msg of
        Indication \<Rightarrow> Inr s
      | Packet data srcAddr srcPort \<Rightarrow>
          if length data < 1 then Inr s
          else
            let msgType = data ! 0 in
            if msgType = 0x01 then Inr (handleAuthRequest ev s data srcAddr srcPort)
            else if msgType = 0x03 then handleProof ev s data srcAddr srcPort
            else Inr s)"

section \<open>DroneAuthApp: the client (DroneAuthApp.h, DroneAuthApp.cc)\<close>

text \<open>
  Simulation time is counted in seconds. The module parameters \<open>authTimeout\<close>,
  \<open>retryInterval\<close> and \<open>startTime\<close> are read with \<open>par(...)\<close> when they are used.
\<close>

type_synonym simtime = real

record params =
  authTimeout :: simtime
  retryInterval :: simtime
  startTime :: simtime

text \<open>The kinds of self message (\<open>MSG_SEND_AUTH_REQUEST\<close> = 1, and so on).\<close>

datatype selfkind = MSG_SEND_AUTH_REQUEST | MSG_SEND_PROOF | MSG_AUTH_TIMEOUT

text \<open>
  The client's fields; the three counters and the identity carry the prefix \<open>app_\<close>
  because the server and the engine have fields of the same names.
  \<^item> \<open>selfMsg\<close> is the one \<open>sendAuthRequest\<close> message, created by \<open>initialize\<close>:
    \<open>None\<close> when it is not scheduled, \<open>Some t\<close> when it is scheduled for time \<open>t\<close>.
  \<^item> \<open>timeoutMsg\<close> is \<open>None\<close> for \<open>nullptr\<close>, \<open>Some None\<close> for a message that is
    allocated and not scheduled, \<open>Some (Some t)\<close> for one scheduled for time \<open>t\<close>.
  \<^item> \<open>proofMsgs\<close> are the arrival times of the \<open>sendProof\<close> messages that are
    scheduled; each is a fresh \<open>cMessage\<close>.
  \<^item> \<open>sent\<close> lists the datagrams handed to \<open>socket.sendTo\<close>, oldest first.
  \<^item> \<open>parentColour\<close> is argument 1 of tag \<open>i\<close> of the parent module's display string,
    \<open>appColour\<close> and \<open>appText\<close> are the module's own tags \<open>i\<close> (argument 1) and
    \<open>t\<close>.
\<close>

record DroneAuthApp =
  app_droneId :: string
  password :: string
  zkpModule :: ZKPModule
  currentChallenge :: string
  selfMsg :: "simtime option"
  timeoutMsg :: "simtime option option"
  proofMsgs :: "simtime list"
  app_numAuthRequests :: "32 word"
  app_numAuthSuccess :: "32 word"
  app_numAuthFailures :: "32 word"
  sent :: "bytes list"
  parentColour :: string
  appColour :: string
  appText :: string

text \<open>
  \<open>initialize\<close> at stage \<open>INITSTAGE_LOCAL\<close>: the engine is constructed with the
  identity, set up (128 random bytes), made a prover (32 more) and asked for its
  commitment; \<open>selfMsg\<close> is created and left unscheduled.
\<close>

definition app_initialize ::
  "(bytes \<Rightarrow> bytes) \<Rightarrow> (nat \<Rightarrow> byte) \<Rightarrow> string \<Rightarrow> string \<Rightarrow> error + DroneAuthApp" where
  "app_initialize H rnd ident pw =
     bind_err
       (createCommitment H
          (initializeProver H (zkp_setup (ZKPModule_new\<lparr>droneId := ident\<rparr>) rnd) ident pw rnd 128))
       (\<lambda>m. Inr \<lparr>app_droneId = ident, password = pw, zkpModule = m, currentChallenge = [],
                  selfMsg = None, timeoutMsg = None, proofMsgs = [],
                  app_numAuthRequests = 0, app_numAuthSuccess = 0, app_numAuthFailures = 0,
                  sent = [], parentColour = [], appColour = [], appText = []\<rparr>)"

text \<open>
  \<open>scheduleAt(t, selfMsg)\<close>. The simulation kernel refuses a message that is still
  scheduled and a time in the past; both are exceptions.
\<close>

definition scheduleAt_selfMsg :: "simtime \<Rightarrow> simtime \<Rightarrow> DroneAuthApp \<Rightarrow> error + DroneAuthApp" where
  "scheduleAt_selfMsg now t app =
     (if selfMsg app \<noteq> None then Inl AlreadyScheduled
      else if t < now then Inl (RuntimeError ''scheduleAt: time in the past'')
      else Inr (app\<lparr>selfMsg := Some t\<rparr>))"

definition app_sendPacket :: "DroneAuthApp \<Rightarrow> bytes \<Rightarrow> DroneAuthApp" where
  "app_sendPacket app data = app\<lparr>sent := sent app @ [data]\<rparr>"

text \<open>
  \<open>sendAuthenticationRequest\<close>: count, send, drop any timeout message there is, and
  arm a new one.
\<close>

definition sendAuthenticationRequest :: "params \<Rightarrow> simtime \<Rightarrow> DroneAuthApp \<Rightarrow> error + DroneAuthApp" where
  "sendAuthenticationRequest par now app0 =
     (let app = app0\<lparr>app_numAuthRequests := app_numAuthRequests app0 + 1\<rparr>;
          app = app_sendPacket app
                  (auth_request_message (app_droneId app) (getCommitment (zkpModule app)));
          app = app\<lparr>timeoutMsg := None\<rparr>
      in if now + authTimeout par < now then Inl (RuntimeError ''scheduleAt: time in the past'')
         else Inr (app\<lparr>timeoutMsg := Some (Some (now + authTimeout par))\<rparr>))"

text \<open>
  \<open>handleChallengeMessage\<close>: two length checks, then the challenge is stored and a new
  \<open>sendProof\<close> message is scheduled 0.001 s later.
\<close>

definition handleChallengeMessage :: "simtime \<Rightarrow> DroneAuthApp \<Rightarrow> bytes \<Rightarrow> DroneAuthApp" where
  "handleChallengeMessage now app data =
     (if length data < 5 then app
      else
        let chalLen = unat (u32_of_bytes (take 4 (drop 1 data))) in
        if length data < 5 + chalLen then app
        else
          let c = string_of_bytes (take chalLen (drop 5 data)) in
          app\<lparr>currentChallenge := c, proofMsgs := proofMsgs app @ [now + 0.001]\<rparr>)"

definition sendZKProof ::
  "(bytes \<Rightarrow> bytes) \<Rightarrow> env \<Rightarrow> DroneAuthApp \<Rightarrow> error + DroneAuthApp" where
  "sendZKProof H ev app =
     bind_err (generateProof H (zkpModule app) (currentChallenge app) (sysclock ev) (elapsed_ms ev))
       (\<lambda>(prf, m). Inr (app_sendPacket (app\<lparr>zkpModule := m\<rparr>) (proof_message prf)))"

definition handleAuthSuccessMessage :: "DroneAuthApp \<Rightarrow> DroneAuthApp" where
  "handleAuthSuccessMessage app =
     app\<lparr>selfMsg := None, timeoutMsg := None,
         app_numAuthSuccess := app_numAuthSuccess app + 1,
         parentColour := ''green'', appColour := ''green'', appText := ''Authenticated''\<rparr>"

definition handleAuthFailureMessage :: "DroneAuthApp \<Rightarrow> DroneAuthApp" where
  "handleAuthFailureMessage app =
     app\<lparr>timeoutMsg := None,
         app_numAuthFailures := app_numAuthFailures app + 1,
         parentColour := ''red'', appColour := ''red'', appText := ''Auth Failed''\<rparr>"

text \<open>
  \<open>handleAuthTimeout\<close>: the timeout message is deleted, a failure is counted, the icon
  turns red, and \<open>selfMsg\<close> is scheduled \<open>retryInterval\<close> after the current time.
\<close>

definition handleAuthTimeout :: "params \<Rightarrow> simtime \<Rightarrow> DroneAuthApp \<Rightarrow> error + DroneAuthApp" where
  "handleAuthTimeout par now app =
     scheduleAt_selfMsg now (now + retryInterval par)
       (app\<lparr>timeoutMsg := None,
            app_numAuthFailures := app_numAuthFailures app + 1,
            parentColour := ''red''\<rparr>)"

text \<open>
  \<open>handleIncomingMessage\<close>: the first byte selects the handler; nothing else of the
  client's state is consulted.
\<close>

definition handleIncomingMessage :: "simtime \<Rightarrow> DroneAuthApp \<Rightarrow> bytes \<Rightarrow> DroneAuthApp" where
  "handleIncomingMessage now app data =
     (if length data < 1 then app
      else
        let msgType = data ! 0 in
        if msgType = 0x02 then handleChallengeMessage now app data
        else if msgType = 0x04 then handleAuthSuccessMessage app
        else if msgType = 0x05 then handleAuthFailureMessage app
        else app)"

text \<open>
  What the kernel delivers to the client. A self message that fires is no longer
  scheduled when its handler runs, and the simulation time is its arrival time: a
  message that is not scheduled cannot fire (\<open>NotDue\<close> stands for an event the
  kernel never produces).
\<close>

datatype app_event = SelfMessage selfkind | PacketIn bytes | IndicationIn

definition app_handleMessageWhenUp ::
  "(bytes \<Rightarrow> bytes) \<Rightarrow> params \<Rightarrow> env \<Rightarrow> simtime \<Rightarrow> DroneAuthApp \<Rightarrow> app_event \<Rightarrow> error + DroneAuthApp" where
  "app_handleMessageWhenUp H par ev now app e =
     (case e of
        SelfMessage MSG_SEND_AUTH_REQUEST \<Rightarrow>
          if selfMsg app = Some now
          then sendAuthenticationRequest par now (app\<lparr>selfMsg := None\<rparr>)
          else Inl NotDue
      | SelfMessage MSG_SEND_PROOF \<Rightarrow>
          if now \<in> set (proofMsgs app)
          then sendZKProof H ev (app\<lparr>proofMsgs := remove1 now (proofMsgs app)\<rparr>)
          else Inl NotDue
      | SelfMessage MSG_AUTH_TIMEOUT \<Rightarrow>
          if timeoutMsg app = Some (Some now)
          then handleAuthTimeout par now (app\<lparr>timeoutMsg := Some None\<rparr>)
          else Inl NotDue
      | PacketIn data \<Rightarrow> Inr (handleIncomingMessage now app data)
      | IndicationIn \<Rightarrow> Inr app)"

text \<open>
  The lifecycle operations: starting schedules \<open>selfMsg\<close> \<open>startTime\<close> ahead, stopping
  and crashing cancel \<open>selfMsg\<close> and the timeout message where they are scheduled.
\<close>

definition handleStartOperation :: "params \<Rightarrow> simtime \<Rightarrow> DroneAuthApp \<Rightarrow> error + DroneAuthApp" where
  "handleStartOperation par now app = scheduleAt_selfMsg now (now + startTime par) app"

definition handleStopOperation :: "DroneAuthApp \<Rightarrow> DroneAuthApp" where
  "handleStopOperation app =
     app\<lparr>selfMsg := None,
         timeoutMsg := (case timeoutMsg app of Some (Some t) \<Rightarrow> Some None | other \<Rightarrow> other)\<rparr>"

definition handleCrashOperation :: "DroneAuthApp \<Rightarrow> DroneAuthApp" where
  "handleCrashOperation app =
     app\<lparr>selfMsg := None,
         timeoutMsg := (case timeoutMsg app of Some (Some t) \<Rightarrow> Some None | other \<Rightarrow> other)\<rparr>"

text \<open>
  Two conditions on the timers. \<open>timer_inv\<close>: while the timeout message is scheduled,
  \<open>selfMsg\<close> is not. \<open>timers_idle\<close>: neither is scheduled, as after \<open>initialize\<close>, a
  stop or a crash.
\<close>

definition timer_inv :: "DroneAuthApp \<Rightarrow> bool" where
  "timer_inv app = (case timeoutMsg app of Some (Some t) \<Rightarrow> selfMsg app = None | other \<Rightarrow> True)"

definition timers_idle :: "DroneAuthApp \<Rightarrow> bool" where
  "timers_idle app =
     (selfMsg app = None \<and> (case timeoutMsg app of Some (Some t) \<Rightarrow> False | other \<Rightarrow> True))"

text \<open>
  A condition on the server: its three maps have ascending keys, and every verifier it
  holds is initialised. It holds after \<open>initialize\<close> and is kept by both handlers.
\<close>

definition server_inv :: "'a GroundStation \<Rightarrow> bool" where
  "server_inv s =
     (stdmap_inv (droneVerifiers s) \<and> stdmap_inv (pendingChallenges s) \<and>
      stdmap_inv (droneAddresses s) \<and>
      list_all (\<lambda>kv. verifierInitialized (snd kv)) (droneVerifiers s))"

text \<open>The number a string of decimal digits stands for.\<close>

definition dec_value :: "string \<Rightarrow> nat" where
  "dec_value s = foldl (\<lambda>acc c. 10 * acc + (of_char c - 48)) 0 s"

section \<open>Example values\<close>

text \<open>
  Concrete inputs on which the theorems below are run: an environment, and the server
  as \<open>initialize\<close> leaves it, with addresses numbered.
\<close>

definition example_env :: env where
  "example_env = \<lparr>sysclock = 1700000000000000000, entropy = of_nat, elapsed_ms = 0\<rparr>"

definition empty_station :: "nat GroundStation" where
  "empty_station =
     \<lparr>droneVerifiers = [], pendingChallenges = [], droneAddresses = [],
      numAuthRequests = 0, numAuthSuccess = 0, numAuthFailures = 0, socketOut = []\<rparr>"

text \<open>A proof whose \<open>proofData\<close> has \<open>2 ^ 32\<close> bytes, one more than 32 bits count.\<close>

definition oversized_proof :: ZKProof where
  "oversized_proof =
     \<lparr>proofData = replicate (2 ^ 32) 0, commitment = [], challenge = [], timestamp = 0\<rparr>"

text \<open>A verifier as the server registers it on first contact, and a well-formed proof.\<close>

definition example_verifier :: ZKPModule where
  "example_verifier = initializeVerifier ZKPModule_new [7, 7, 7] ''DRONE_001''"

definition example_proof :: ZKProof where
  "example_proof =
     \<lparr>proofData = replicate 32 0, commitment = [7, 7, 7], challenge = ''c'',
      timestamp = 1700000000000000000\<rparr>"

text \<open>
  The server after the first request of \<open>DRONE_001\<close> with commitment \<open>[7, 7, 7]\<close>, an
  environment one second later, and the honest answer to the pending challenge with a
  timestamp half a second old at that time.
\<close>

definition registered_station :: "nat GroundStation" where
  "registered_station =
     handleAuthRequest example_env empty_station (auth_request_message ''DRONE_001'' [7, 7, 7]) 7 5000"

definition later_env :: env where
  "later_env = \<lparr>sysclock = 1700000001000000000, entropy = of_nat, elapsed_ms = 1 / 4\<rparr>"

definition first_challenge :: string where
  "first_challenge = ''CHALLENGE_1700000000000000000_8081828384858687''"

definition answer_proof :: ZKProof where
  "answer_proof =
     \<lparr>proofData = replicate 32 0, commitment = [7, 7, 7], challenge = first_challenge,
      timestamp = 1700000000500000000\<rparr>"

text \<open>
  The verifier of \<open>DRONE_001\<close> in that server, and the same answer with a
  timestamp ten seconds before the later clock reading.
\<close>

definition registered_verifier :: ZKPModule where
  "registered_verifier =
     (initializeVerifier (zkp_setup ZKPModule_new of_nat) [7, 7, 7] ''DRONE_001'')
       \<lparr>lastChallenge := first_challenge\<rparr>"

definition old_proof :: ZKProof where
  "old_proof = answer_proof\<lparr>timestamp := 1699999991000000000\<rparr>"

text \<open>
  A client that has sent its request at time 1 and waits, with a timeout of 5 s and a
  retry interval of 10 s; a stand-in for the hash function.
\<close>

definition example_params :: params where
  "example_params = \<lparr>authTimeout = 5, retryInterval = 10, startTime = 1\<rparr>"

definition example_hash :: "bytes \<Rightarrow> bytes" where
  "example_hash bs = replicate 32 (of_nat (length bs))"

definition waiting_app :: DroneAuthApp where
  "waiting_app =
     \<lparr>app_droneId = ''DRONE_001'', password = ''pw'',
      zkpModule = ZKPModule_new\<lparr>droneId := ''DRONE_001'', publicCommitment := [7, 7, 7],
                                proverInitialized := True\<rparr>,
      currentChallenge = [], selfMsg = None, timeoutMsg = Some (Some 6), proofMsgs = [],
      app_numAuthRequests = 1, app_numAuthSuccess = 0, app_numAuthFailures = 0,
      sent = [auth_request_message ''DRONE_001'' [7, 7, 7]],
      parentColour = [], appColour = [], appText = []\<rparr>"

text \<open>
  A request of the unauthorised \<open>DRONE_999\<close> whose commitment length field names
  4294967295 bytes where none follows.
\<close>

definition broken_request :: bytes where
  "broken_request =
     [0x01, 9, 0, 0, 0] @ bytes_of_string ''DRONE_999'' @ [0xFF, 0xFF, 0xFF, 0xFF]"

text \<open>
  An environment in which the clock still reads what it read at the first request of
  \<open>DRONE_001\<close> and the random source delivers the bytes of that request again, and the
  example server after a second request of \<open>DRONE_001\<close> handled in it.
\<close>

definition repeat_env :: env where
  "repeat_env =
     \<lparr>sysclock = 1700000000000000000, entropy = (\<lambda>i. of_nat (i + 128)), elapsed_ms = 0\<rparr>"

definition repeated_station :: "nat GroundStation" where
  "repeated_station =
     handleAuthRequest repeat_env registered_station
       (auth_request_message ''DRONE_001'' [7, 7, 7]) 7 5000"

section \<open>Basic facts\<close>

lemma bind_err_Inr [simp]: "bind_err (Inr x) f = f x"
  by (simp add: bind_err_def)

lemma bind_err_Inl [simp]: "bind_err (Inl e) f = Inl e"
  by (simp add: bind_err_def)

section \<open>Round trip of the packing\<close>

lemma length_le_encode: "length (le_encode n v) = n"
  by (induction n arbitrary: v) auto

lemma le_decode_le_encode: "v < 256 ^ n \<Longrightarrow> le_decode (le_encode n v) = v"
proof (induction n arbitrary: v)
  case 0
  then show ?case by simp
next
  case (Suc n)
  have "v div 256 < 256 ^ n"
    using Suc.prems by (simp add: less_mult_imp_div_less mult.commute)
  then have "le_decode (le_encode n (v div 256)) = v div 256"
    by (rule Suc.IH)
  moreover have "unat (of_nat (v mod 256) :: byte) = v mod 256"
    by (simp add: unat_of_nat)
  ultimately show ?case by simp
qed

lemma length_u32_bytes: "length (u32_bytes w) = 4"
  by (simp add: u32_bytes_def length_le_encode)

lemma length_u64_bytes: "length (u64_bytes w) = 8"
  by (simp add: u64_bytes_def length_le_encode)

lemma u32_of_bytes_u32_bytes: "u32_of_bytes (u32_bytes w) = w"
proof -
  have "unat w < 256 ^ 4"
    using unsigned_less [of w, where ?'a = nat] by simp
  then show ?thesis
    by (simp add: u32_of_bytes_def u32_bytes_def le_decode_le_encode)
qed

lemma u64_of_bytes_u64_bytes: "u64_of_bytes (u64_bytes w) = w"
proof -
  have "unat w < 256 ^ 8"
    using unsigned_less [of w, where ?'a = nat] by simp
  then show ?thesis
    by (simp add: u64_of_bytes_def u64_bytes_def le_decode_le_encode)
qed

lemma string_of_bytes_of_string: "string_of_bytes (bytes_of_string s) = s"
proof -
  have "char_of (unat (of_nat (of_char c) :: byte)) = c" for c :: char
  proof -
    have "(of_char c :: nat) < 256" by simp
    then have "unat (of_nat (of_char c) :: byte) = of_char c"
      by (simp add: unat_of_nat)
    then show ?thesis by simp
  qed
  then show ?thesis
    by (simp add: string_of_bytes_def bytes_of_string_def comp_def)
qed

lemma length_bytes_of_string: "length (bytes_of_string s) = length s"
  by (simp add: bytes_of_string_def)

lemma unat_size_u32: "length xs < 2 ^ 32 \<Longrightarrow> unat (size_u32 xs) = length xs"
  by (simp add: size_u32_def unat_of_nat)

text \<open>Reading back a field that was written at the front of a buffer.\<close>

lemma read_u32_append:
  "length pre = offset \<Longrightarrow> read_u32 (pre @ u32_bytes w @ rest) offset = Inr w"
  by (simp add: read_u32_def length_u32_bytes u32_of_bytes_u32_bytes)

lemma read_u64_append:
  "length pre = offset \<Longrightarrow> read_u64 (pre @ u64_bytes w @ rest) offset = Inr w"
  by (simp add: read_u64_def length_u64_bytes u64_of_bytes_u64_bytes)

lemma read_range_append:
  "length pre = offset \<Longrightarrow> length xs = n \<Longrightarrow> read_range (pre @ xs @ rest) offset n = Inr xs"
  by (simp add: read_range_def)



section \<open>Facts about the map operations\<close>

lemma stdmap_find_assign:
  "stdmap_find k' (stdmap_assign k v m) = (if k' = k then Some v else stdmap_find k' m)"
  by (induction m) (auto simp: stdmap_find_def)

lemma stdmap_find_erase:
  "stdmap_find k' (stdmap_erase k m) = (if k' = k then None else stdmap_find k' m)"
  by (induction m) (auto simp: stdmap_find_def stdmap_erase_def)

lemma set_stdmap_assign_subset:
  "x \<in> set (stdmap_assign k v m) \<Longrightarrow> x = (k, v) \<or> x \<in> set m"
  by (induction m) (auto split: if_splits)

lemma stdmap_inv_assign:
  "stdmap_inv m \<Longrightarrow> stdmap_inv (stdmap_assign k v m)"
proof (induction m)
  case Nil
  then show ?case by (simp add: stdmap_inv_def)
next
  case (Cons a m)
  obtain k' v' where a: "a = (k', v')" by (cases a)
  have tail: "stdmap_inv m" and hd: "\<forall>x\<in>set m. k' < fst x"
    using Cons.prems by (auto simp: stdmap_inv_def a)
  show ?case
  proof (cases "k < k'")
    case True
    then show ?thesis using Cons.prems hd by (auto simp: stdmap_inv_def a)
  next
    case False
    show ?thesis
    proof (cases "k = k'")
      case True
      then show ?thesis using Cons.prems by (auto simp: stdmap_inv_def a)
    next
      case ne: False
      with False have lt: "k' < k" by simp
      have "stdmap_inv (stdmap_assign k v m)" using Cons.IH tail by simp
      moreover have "\<forall>x\<in>set (stdmap_assign k v m). k' < fst x"
        using hd lt set_stdmap_assign_subset [of _ k v m] by fastforce
      ultimately show ?thesis using False ne by (simp add: stdmap_inv_def a)
    qed
  qed
qed

lemma stdmap_inv_erase: "stdmap_inv m \<Longrightarrow> stdmap_inv (stdmap_erase k m)"
  by (induction m) (auto simp: stdmap_inv_def stdmap_erase_def)

lemma set_stdmap_assign:
  "stdmap_inv m \<Longrightarrow> set (stdmap_assign k v m) = insert (k, v) {kv \<in> set m. fst kv \<noteq> k}"
proof (induction m)
  case Nil
  then show ?case by simp
next
  case (Cons a m)
  obtain k' v' where a: "a = (k', v')" by (cases a)
  have tail: "stdmap_inv m" and hd: "\<forall>x\<in>set m. k' < fst x"
    using Cons.prems by (auto simp: stdmap_inv_def a)
  show ?case
  proof (cases "k < k'")
    case True
    then show ?thesis using hd by (auto simp: a)
  next
    case False
    show ?thesis
    proof (cases "k = k'")
      case True
      then show ?thesis using hd by (auto simp: a)
    next
      case ne: False
      then show ?thesis using False Cons.IH [OF tail] by (auto simp: a)
    qed
  qed
qed

lemma find_challenge_none:
  "c \<notin> snd ` set m \<Longrightarrow> find_challenge m c = []"
  by (induction m c rule: find_challenge.induct) auto

lemma find_challenge_found:
  "find_challenge m c \<noteq> [] \<Longrightarrow> (find_challenge m c, c) \<in> set m"
  by (induction m c rule: find_challenge.induct) auto


section \<open>Parsing an authentication request\<close>

lemma take_drop_append:
  "length pre = offset \<Longrightarrow> length xs = n \<Longrightarrow> take n (drop offset (pre @ xs @ rest)) = xs"
  by simp

lemma auth_request_parse:
  assumes "length ident < 2 ^ 32" "length cm < 2 ^ 32"
  defines "data \<equiv> auth_request_message ident cm"
  shows "length data = 9 + length ident + length cm"
    and "take 4 (drop 1 data) = u32_bytes (size_u32 ident)"
    and "take (length ident) (drop 5 data) = bytes_of_string ident"
    and "take 4 (drop (5 + length ident) data) = u32_bytes (size_u32 cm)"
    and "take (length cm) (drop (5 + length ident + 4) data) = cm"
proof -
  let ?i = "u32_bytes (size_u32 ident)" and ?c = "u32_bytes (size_u32 cm)"
  let ?ib = "bytes_of_string ident"
  have data: "data = [0x01] @ ?i @ ?ib @ ?c @ cm"
    by (simp add: data_def auth_request_message_def)
  show "length data = 9 + length ident + length cm"
    by (simp add: data length_u32_bytes length_bytes_of_string)
  show "take 4 (drop 1 data) = ?i"
    unfolding data by (rule take_drop_append) (simp_all add: length_u32_bytes)
  show "take (length ident) (drop 5 data) = ?ib"
    using take_drop_append [of "[0x01] @ ?i" 5 ?ib "length ident" "?c @ cm"]
    by (simp add: data length_u32_bytes length_bytes_of_string)
  show "take 4 (drop (5 + length ident) data) = ?c"
    using take_drop_append [of "[0x01] @ ?i @ ?ib" "5 + length ident" ?c 4 cm]
    by (simp add: data length_u32_bytes length_bytes_of_string)
  show "take (length cm) (drop (5 + length ident + 4) data) = cm"
    using take_drop_append [of "[0x01] @ ?i @ ?ib @ ?c" "5 + length ident + 4" cm "length cm" "[]"]
    by (simp add: data length_u32_bytes length_bytes_of_string)
qed

lemma handleAuthRequest_message:
  assumes "length ident < 2 ^ 32" "length cm < 2 ^ 32"
  shows "handleAuthRequest ev s0 (auth_request_message ident cm) a p =
     (let s = s0\<lparr>numAuthRequests := numAuthRequests s0 + 1\<rparr> in
      if ident \<notin> authorizedDrones
      then (sendAuthFailure s a p)\<lparr>numAuthFailures := numAuthFailures s + 1\<rparr>
      else
        let found = stdmap_find ident (droneVerifiers s);
            verifier = (case found of
                None \<Rightarrow> initializeVerifier (zkp_setup ZKPModule_new (entropy ev)) cm ident
              | Some v \<Rightarrow> v);
            pos = (case found of None \<Rightarrow> 128 | Some v \<Rightarrow> 0);
            (c, verifier') = generateChallenge verifier (sysclock ev) (entropy ev) pos;
            s1 = s\<lparr>droneVerifiers := stdmap_assign ident verifier' (droneVerifiers s),
                   pendingChallenges := stdmap_assign ident c (pendingChallenges s),
                   droneAddresses := stdmap_assign ident (a, p) (droneAddresses s)\<rparr>
        in sendPacket s1 (challenge_message c) a p)"
proof -
  note ps = auth_request_parse [OF assms]
  have n1: "unat (u32_of_bytes (u32_bytes (size_u32 ident))) = length ident"
    and n2: "unat (u32_of_bytes (u32_bytes (size_u32 cm))) = length cm"
    using assms by (simp_all add: u32_of_bytes_u32_bytes unat_size_u32)
  have l: "\<not> length (auth_request_message ident cm) < 9"
    "\<not> length (auth_request_message ident cm) < 5 + length ident + 4"
    "\<not> length (auth_request_message ident cm) < 5 + length ident + 4 + length cm"
    using ps(1) by simp_all
  show ?thesis
    unfolding handleAuthRequest_def Let_def
    by (simp only: ps(2-5) n1 n2 l if_False string_of_bytes_of_string)
qed


lemma authorized_length: "ident \<in> authorizedDrones \<Longrightarrow> length ident < 2 ^ 32"
  by (auto simp: authorizedDrones_def)

lemma authorized_nonempty: "ident \<in> authorizedDrones \<Longrightarrow> ident \<noteq> []"
  by (auto simp: authorizedDrones_def)


section \<open>Facts about the proof codec and the verifier\<close>

lemma deserialize_serialize_aux:
  assumes "length (proofData p) < 2 ^ 32" "length (commitment p) < 2 ^ 32"
    "length (challenge p) < 2 ^ 32"
  shows "deserialize (serialize p) = Inr p"
proof -
  let ?a = "u32_bytes (size_u32 (proofData p))"
  let ?b = "u32_bytes (size_u32 (commitment p))"
  let ?c = "u32_bytes (size_u32 (challenge p))"
  let ?cb = "bytes_of_string (challenge p)"
  let ?t = "u64_bytes (timestamp p)"
  let ?d = "serialize p"
  let ?n1 = "length (proofData p)" and ?n2 = "length (commitment p)"
  have n1: "unat (size_u32 (proofData p)) = ?n1"
    and n2: "unat (size_u32 (commitment p)) = ?n2"
    and n3: "unat (size_u32 (challenge p)) = length ?cb"
    using assms by (simp_all add: unat_size_u32 length_bytes_of_string)
  have r1: "read_u32 ?d 0 = Inr (size_u32 (proofData p))"
    using read_u32_append [of "[]" 0] by (simp add: serialize_def)
  have r2: "read_range ?d 4 ?n1 = Inr (proofData p)"
    using read_range_append [of ?a 4 "proofData p"]
    by (simp add: serialize_def length_u32_bytes)
  have r3: "read_u32 ?d (4 + ?n1) = Inr (size_u32 (commitment p))"
    using read_u32_append [of "?a @ proofData p" "4 + ?n1"]
    by (simp add: serialize_def length_u32_bytes)
  have r4: "read_range ?d (4 + ?n1 + 4) ?n2 = Inr (commitment p)"
    using read_range_append [of "?a @ proofData p @ ?b" "4 + ?n1 + 4" "commitment p"]
    by (simp add: serialize_def length_u32_bytes)
  have r5: "read_u32 ?d (4 + ?n1 + 4 + ?n2) = Inr (size_u32 (challenge p))"
    using read_u32_append [of "?a @ proofData p @ ?b @ commitment p" "4 + ?n1 + 4 + ?n2"]
    by (simp add: serialize_def length_u32_bytes)
  have r6: "read_range ?d (4 + ?n1 + 4 + ?n2 + 4) (length ?cb) = Inr ?cb"
    using read_range_append [of "?a @ proofData p @ ?b @ commitment p @ ?c"
        "4 + ?n1 + 4 + ?n2 + 4" ?cb "length ?cb" ?t]
    by (simp add: serialize_def length_u32_bytes)
  have r7: "read_u64 ?d (4 + ?n1 + 4 + ?n2 + 4 + length ?cb) = Inr (timestamp p)"
    using read_u64_append [of "?a @ proofData p @ ?b @ commitment p @ ?c @ ?cb"
        "4 + ?n1 + 4 + ?n2 + 4 + length ?cb" "timestamp p" "[]"]
    by (simp add: serialize_def length_u32_bytes)
  show ?thesis
    unfolding deserialize_def Let_def
    by (simp only: r1 n1 r2 r3 n2 r4 r5 n3 r6 r7 bind_err_Inr string_of_bytes_of_string) simp
qed

lemma length_serialize:
  "length (serialize p) =
     20 + length (proofData p) + length (commitment p) + length (challenge p)"
  by (simp add: serialize_def length_u32_bytes length_u64_bytes length_bytes_of_string)

text \<open>A PROOF message passes the size test of \<open>handleProof\<close> and parses to its proof.\<close>

lemma proof_message_parse:
  assumes "length (proofData p) < 2 ^ 32" "length (commitment p) < 2 ^ 32"
    "length (challenge p) < 2 ^ 32"
  shows "2 \<le> length (proof_message p)"
    and "deserialize (drop 1 (proof_message p)) = Inr p"
  using assms by (simp_all add: proof_message_def length_serialize deserialize_serialize_aux)

text \<open>What \<open>deserialize\<close> returns as \<open>proofData\<close> has the length the first field names.\<close>

lemma deserialize_proofData_length:
  assumes "deserialize d = Inr q"
  shows "\<exists>n. read_u32 d 0 = Inr n \<and> length (proofData q) = unat n"
proof (cases "read_u32 d 0")
  case (Inl e)
  with assms show ?thesis by (simp add: deserialize_def)
next
  case (Inr n)
  show ?thesis
  proof (cases "read_range d 4 (unat n)")
    case (Inl e)
    with Inr assms show ?thesis by (simp add: deserialize_def)
  next
    case pd: (Inr pd)
    have len: "length pd = unat n"
      using pd by (auto simp: read_range_def split: if_splits)
    have "proofData q = pd"
      using assms Inr pd
      by (auto simp: deserialize_def Let_def bind_err_def split: sum.splits)
    with Inr len show ?thesis by simp
  qed
qed

text \<open>Signed 64-bit subtraction and \<open>abs\<close> agree with the integers while nothing overflows.\<close>

lemma sint_diff:
  assumes "- (2 ^ 63) \<le> sint a - sint b" "sint a - sint b < 2 ^ 63"
  shows "sint (a - b :: 64 word) = sint a - sint b"
  using assms by (simp add: sint_word_ariths signed_take_bit_int_eq_self)

lemma sint_abs64:
  assumes "- (2 ^ 63) < sint d"
  shows "sint (abs64 d) = \<bar>sint d\<bar>"
proof (cases "sint d < 0")
  case True
  have "sint d < 2 ^ 63"
    using sint_lt [of d] by simp
  then have "sint (- d) = - sint d"
    using assms by (simp add: sint_word_ariths signed_take_bit_int_eq_self)
  with True show ?thesis by (simp add: abs64_def)
next
  case False
  then show ?thesis by (simp add: abs64_def)
qed

text \<open>
  Away from the overflow, \<open>verifyProof\<close> accepts exactly the proofs of 32 bytes with
  the stored commitment and a timestamp within 5000000000 ticks of the clock.
\<close>

lemma verifyProof_in_range:
  assumes init: "verifierInitialized m"
    and lo: "- (2 ^ 63) < sint now - sint (timestamp prf)"
    and hi: "sint now - sint (timestamp prf) < 2 ^ 63"
  shows "(\<exists>m'. verifyProof m prf now e = Inr (True, m')) \<longleftrightarrow>
         length (proofData prf) = 32 \<and> commitment prf = publicCommitment m \<and>
         \<bar>sint now - sint (timestamp prf)\<bar> \<le> 5000000000"
proof -
  have d: "sint (now - timestamp prf) = sint now - sint (timestamp prf)"
    using lo hi by (simp add: sint_diff)
  then have "sint (abs64 (now - timestamp prf)) = \<bar>sint now - sint (timestamp prf)\<bar>"
    using lo sint_abs64 [of "now - timestamp prf"] by simp
  then show ?thesis
    using init by (auto simp: verifyProof_def SHA256_DIGEST_LENGTH_def Let_def)
qed

text \<open>The bytes of \<open>proofData\<close> play no part in the verdict, only their number.\<close>

lemma verifyProof_ignores_proofData:
  "length pd = length (proofData prf) \<Longrightarrow>
   map_sum id fst (verifyProof m (prf\<lparr>proofData := pd\<rparr>) now e) =
   map_sum id fst (verifyProof m prf now e)"
  by (simp add: verifyProof_def Let_def)

lemma verifyProof_False_unchanged:
  "verifyProof m prf now e = Inr (False, m') \<Longrightarrow> m' = m"
  by (auto simp: verifyProof_def Let_def split: if_splits)


section \<open>Facts about the handlers\<close>

text \<open>Whatever \<open>handleProof\<close> does, it changes the pending challenges only by erasing
  one entry, and only together with an AUTH_SUCCESS.\<close>

lemma handleProof_pending_frame:
  assumes "handleProof ev s data a p = Inr s'"
  shows "pendingChallenges s' = pendingChallenges s \<or>
         (\<exists>ident. pendingChallenges s' = stdmap_erase ident (pendingChallenges s) \<and>
            socketOut s' = socketOut s @ [([0x04], a, p)])"
  using assms
  by (auto simp: handleProof_def Let_def sendAuthSuccess_def sendAuthFailure_def sendPacket_def
      split: if_splits sum.splits error.splits option.splits bool.splits) blast

text \<open>The example server, evaluated.\<close>

lemma generateChallenge_example:
  "generateChallenge m 1700000000000000000 of_nat 128 =
     (first_challenge, m\<lparr>lastChallenge := first_challenge\<rparr>)"
  by (simp add: generateChallenge_def generateRandomBytes_def bytesToHex_def hex_digit_def
      dec_of_int_def dec_of_nat.simps Let_def upt_rec first_challenge_def)

lemma generateChallenge_later:
  "fst (generateChallenge m 1700000001000000000 of_nat 0) =
     ''CHALLENGE_1700000001000000000_0001020304050607''"
  by (simp add: generateChallenge_def generateRandomBytes_def bytesToHex_def hex_digit_def
      dec_of_int_def dec_of_nat.simps Let_def upt_rec)

lemma registered_station_eq:
  "registered_station =
     \<lparr>droneVerifiers = [(''DRONE_001'',
         (initializeVerifier (zkp_setup ZKPModule_new of_nat) [7, 7, 7] ''DRONE_001'')
           \<lparr>lastChallenge := first_challenge\<rparr>)],
      pendingChallenges = [(''DRONE_001'', first_challenge)],
      droneAddresses = [(''DRONE_001'', (7, 5000))],
      numAuthRequests = 1, numAuthSuccess = 0, numAuthFailures = 0,
      socketOut = [(challenge_message first_challenge, 7, 5000)]\<rparr>"
proof -
  have a: "''DRONE_001'' \<in> authorizedDrones" by (simp add: authorizedDrones_def)
  show ?thesis
    unfolding registered_station_def
    using a
    by (simp add: handleAuthRequest_message Let_def example_env_def empty_station_def
        stdmap_find_def generateChallenge_example sendPacket_def)
qed

lemma registered_pending:
  "pendingChallenges registered_station = [(''DRONE_001'', first_challenge)]"
  by (simp add: registered_station_eq)

lemma registered_session:
  "stdmap_find ''DRONE_001'' (droneVerifiers registered_station) = Some registered_verifier"
  by (simp add: registered_station_eq stdmap_find_def registered_verifier_def)

lemma answer_proof_lengths:
  "length (proofData answer_proof) < 2 ^ 32" "length (commitment answer_proof) < 2 ^ 32"
  "length (challenge answer_proof) < 2 ^ 32"
  by (simp_all add: answer_proof_def first_challenge_def)

lemma old_proof_lengths:
  "length (proofData old_proof) < 2 ^ 32" "length (commitment old_proof) < 2 ^ 32"
  "length (challenge old_proof) < 2 ^ 32"
  by (simp_all add: old_proof_def answer_proof_def first_challenge_def)

lemma answer_proof_verdict:
  "verifyProof registered_verifier answer_proof (sysclock later_env) (elapsed_ms later_env) =
     Inr (True, registered_verifier
                  \<lparr>lastStats := (lastStats registered_verifier)\<lparr>verificationTime := 1 / 4\<rparr>\<rparr>)"
  by (simp add: verifyProof_def registered_verifier_def initializeVerifier_def zkp_setup_def
      ZKPModule_new_def answer_proof_def later_env_def SHA256_DIGEST_LENGTH_def abs64_def Let_def)

lemma old_proof_verdict:
  "verifyProof registered_verifier old_proof (sysclock later_env) (elapsed_ms later_env) =
     Inr (False, registered_verifier)"
  by (simp add: verifyProof_def registered_verifier_def initializeVerifier_def zkp_setup_def
      ZKPModule_new_def answer_proof_def old_proof_def later_env_def SHA256_DIGEST_LENGTH_def
      abs64_def Let_def)

text \<open>The timers of the client: the invariant holds from the start on.\<close>

lemma timers_idle_initialize:
  "app_initialize H rnd ident pw = Inr app \<Longrightarrow> timers_idle app"
  by (auto simp: app_initialize_def bind_err_def timers_idle_def split: sum.splits)

lemma timers_idle_stop: "timers_idle (handleStopOperation app)"
  by (simp add: handleStopOperation_def timers_idle_def split: option.splits)

lemma timers_idle_crash: "timers_idle (handleCrashOperation app)"
  by (simp add: handleCrashOperation_def timers_idle_def split: option.splits)

lemma timer_inv_start:
  "timers_idle app \<Longrightarrow> handleStartOperation par now app = Inr app' \<Longrightarrow> timer_inv app'"
  by (auto simp: handleStartOperation_def scheduleAt_selfMsg_def timers_idle_def timer_inv_def
      split: if_splits option.splits)

lemma timer_inv_step:
  assumes "timer_inv app" "app_handleMessageWhenUp H par ev now app e = Inr app'"
  shows "timer_inv app'"
proof (cases e)
  case (SelfMessage k)
  then show ?thesis
    using assms
    by (cases k)
      (auto simp: app_handleMessageWhenUp_def sendAuthenticationRequest_def Let_def
        app_sendPacket_def sendZKProof_def bind_err_def handleAuthTimeout_def
        scheduleAt_selfMsg_def timer_inv_def
        split: if_splits sum.splits option.splits prod.splits)
next
  case (PacketIn data)
  then show ?thesis
    using assms
    by (auto simp: app_handleMessageWhenUp_def handleIncomingMessage_def Let_def
        handleChallengeMessage_def handleAuthSuccessMessage_def handleAuthFailureMessage_def
        timer_inv_def split: if_splits option.splits)
next
  case IndicationIn
  then show ?thesis using assms by (simp add: app_handleMessageWhenUp_def)
qed

lemma challenge_parse:
  assumes "length c < 2 ^ 32"
  shows "length (challenge_message c) = 5 + length c"
    and "take 4 (drop 1 (challenge_message c)) = u32_bytes (size_u32 c)"
    and "take (length c) (drop 5 (challenge_message c)) = bytes_of_string c"
proof -
  let ?l = "u32_bytes (size_u32 c)"
  have data: "challenge_message c = [0x02] @ ?l @ bytes_of_string c @ []"
    by (simp add: challenge_message_def)
  show "length (challenge_message c) = 5 + length c"
    by (simp add: challenge_message_def length_u32_bytes length_bytes_of_string)
  show "take 4 (drop 1 (challenge_message c)) = ?l"
    unfolding data by (rule take_drop_append) (simp_all add: length_u32_bytes)
  show "take (length c) (drop 5 (challenge_message c)) = bytes_of_string c"
    using take_drop_append [of "[0x02] @ ?l" 5 "bytes_of_string c" "length c" "[]"]
    by (simp add: challenge_message_def length_u32_bytes length_bytes_of_string)
qed

lemma handleChallengeMessage_message:
  assumes "length c < 2 ^ 32"
  shows "handleChallengeMessage now app (challenge_message c) =
           app\<lparr>currentChallenge := c, proofMsgs := proofMsgs app @ [now + 0.001]\<rparr>"
proof -
  note ps = challenge_parse [OF assms]
  have n: "unat (u32_of_bytes (u32_bytes (size_u32 c))) = length c"
    using assms by (simp add: u32_of_bytes_u32_bytes unat_size_u32)
  have l: "\<not> length (challenge_message c) < 5" "\<not> length (challenge_message c) < 5 + length c"
    using ps(1) by simp_all
  show ?thesis
    unfolding handleChallengeMessage_def Let_def
    by (simp only: ps(2,3) n l if_False string_of_bytes_of_string)
qed


section \<open>The server invariant\<close>

lemma list_all_stdmap_assign:
  "list_all P m \<Longrightarrow> P (k, v) \<Longrightarrow> list_all P (stdmap_assign k v m)"
  by (induction m) auto

lemma stdmap_find_list_all:
  "list_all P m \<Longrightarrow> stdmap_find k m = Some v \<Longrightarrow> P (k, v)"
  by (induction m) (auto simp: stdmap_find_def split: if_splits)

lemma generateChallenge_initialized:
  "verifierInitialized (snd (generateChallenge m now rnd pos)) = verifierInitialized m"
  by (simp add: generateChallenge_def Let_def)

lemma server_inv_empty: "server_inv empty_station"
  by (simp add: server_inv_def empty_station_def stdmap_inv_def)

lemma server_inv_sendPacket [simp]: "server_inv (sendPacket s d a p) = server_inv s"
  by (simp add: server_inv_def sendPacket_def)

lemma server_inv_counters [simp]:
  "server_inv (s\<lparr>numAuthRequests := n\<rparr>) = server_inv s"
  "server_inv (s\<lparr>numAuthFailures := n\<rparr>) = server_inv s"
  "server_inv (s\<lparr>numAuthSuccess := n\<rparr>) = server_inv s"
  by (simp_all add: server_inv_def)

lemma server_inv_handleAuthRequest:
  assumes "server_inv s"
  shows "server_inv (handleAuthRequest ev s data a p)"
proof -
  have old: "verifierInitialized v"
    if "stdmap_find ident (droneVerifiers s) = Some v" for ident v
    using stdmap_find_list_all [OF _ that, of "\<lambda>kv. verifierInitialized (snd kv)"] assms
    by (simp add: server_inv_def)
  show ?thesis
    using assms old
    by (auto simp: handleAuthRequest_def Let_def sendAuthFailure_def server_inv_def sendPacket_def
        stdmap_inv_assign list_all_stdmap_assign generateChallenge_def initializeVerifier_def
        split: option.splits)
qed

lemma verifyProof_initialized:
  "verifyProof m prf now e = Inr (ok, m') \<Longrightarrow> verifierInitialized m'"
  by (auto simp: verifyProof_def Let_def split: if_splits)

lemma verifyProof_returns:
  "verifierInitialized m \<Longrightarrow> \<exists>ok m'. verifyProof m prf now e = Inr (ok, m')"
  by (auto simp: verifyProof_def Let_def)

lemma server_inv_handleProof:
  assumes "server_inv s" "handleProof ev s data a p = Inr s'"
  shows "server_inv s'"
  using assms
  by (auto simp: handleProof_def Let_def sendAuthFailure_def sendAuthSuccess_def server_inv_def
      sendPacket_def stdmap_inv_assign stdmap_inv_erase
      split: if_splits sum.splits error.splits option.splits
      intro!: list_all_stdmap_assign)
    (erule verifyProof_initialized)+

text \<open>In such a state \<open>handleProof\<close> throws nothing: it returns or reads out of bounds.\<close>

lemma handleProof_no_exception:
  assumes "server_inv s"
  shows "handleProof ev s data a p \<noteq> Inl (RuntimeError msg)"
proof -
  have old: "verifierInitialized v"
    if "stdmap_find ident (droneVerifiers s) = Some v" for ident v
    using stdmap_find_list_all [OF _ that, of "\<lambda>kv. verifierInitialized (snd kv)"] assms
    by (simp add: server_inv_def)
  show ?thesis
    using old
    by (auto simp: handleProof_def Let_def verifyProof_def
        split: if_splits sum.splits error.splits option.splits)
qed


section \<open>A challenge determines the clock reading it was generated at\<close>

lemma digit_cases: "d < 10 \<Longrightarrow> d \<in> {0, 1, 2, 3, 4, 5, 6, 7, 8, 9 :: nat}"
  by auto

lemma digit_value: "d < 10 \<Longrightarrow> of_char (''0123456789'' ! d) = (48 + d :: nat)"
  by (drule digit_cases) auto

lemma digit_not_sep: "d < 10 \<Longrightarrow> ''0123456789'' ! d \<noteq> CHR ''_'' \<and> ''0123456789'' ! d \<noteq> CHR ''-''"
  by (drule digit_cases) auto

lemma dec_value_dec_of_nat: "dec_value (dec_of_nat n) = n"
proof (induction n rule: dec_of_nat.induct)
  case (1 n)
  show ?case
  proof (cases "n < 10")
    case True
    then show ?thesis
      by (subst dec_of_nat.simps) (simp add: dec_value_def digit_value)
  next
    case False
    have "dec_value (dec_of_nat n) = 10 * dec_value (dec_of_nat (n div 10)) + n mod 10"
      using False
      by (subst dec_of_nat.simps) (simp add: dec_value_def digit_value)
    with 1 False show ?thesis by simp
  qed
qed

lemma dec_of_nat_inj: "dec_of_nat a = dec_of_nat b \<Longrightarrow> a = b"
  by (metis dec_value_dec_of_nat)

lemma dec_of_nat_chars: "c \<in> set (dec_of_nat n) \<Longrightarrow> c \<noteq> CHR ''_'' \<and> c \<noteq> CHR ''-''"
proof (induction n rule: dec_of_nat.induct)
  case (1 n)
  show ?case
  proof (cases "n < 10")
    case True
    then show ?thesis
      using "1.prems" digit_not_sep [of n]
      by (subst (asm) dec_of_nat.simps) simp
  next
    case False
    have "c \<in> set (dec_of_nat (n div 10)) \<or> c = ''0123456789'' ! (n mod 10)"
      using "1.prems" False by (subst (asm) dec_of_nat.simps) auto
    then show ?thesis
      using "1.IH" [OF False] digit_not_sep [of "n mod 10"] by auto
  qed
qed

lemma dec_of_int_inj: "dec_of_int a = dec_of_int b \<Longrightarrow> a = b"
proof -
  assume eq: "dec_of_int a = dec_of_int b"
  have nz: "dec_of_nat n \<noteq> []" for n
    by (subst dec_of_nat.simps) simp
  have nohd: "dec_of_nat n \<noteq> CHR ''-'' # xs" for n xs
    using dec_of_nat_chars [of "CHR ''-''" n] by (metis list.set_intros(1))
  show ?thesis
  proof (cases "a < 0")
    case True
    show ?thesis
    proof (cases "b < 0")
      case b: True
      with True eq have "nat (- a) = nat (- b)"
        by (auto simp: dec_of_int_def dest: dec_of_nat_inj)
      with True b show ?thesis by simp
    next
      case False
      with True eq nohd [of "nat b" "dec_of_nat (nat (- a))"] show ?thesis
        by (simp add: dec_of_int_def)
    qed
  next
    case False
    show ?thesis
    proof (cases "b < 0")
      case True
      with False eq nohd [of "nat a" "dec_of_nat (nat (- b))"] show ?thesis
        by (simp add: dec_of_int_def)
    next
      case b: False
      with False eq have "nat a = nat b"
        by (auto simp: dec_of_int_def dest: dec_of_nat_inj)
      with False b show ?thesis by simp
    qed
  qed
qed

lemma dec_of_int_no_sep: "CHR ''_'' \<notin> set (dec_of_int i)"
  using dec_of_nat_chars [of "CHR ''_''"] by (auto simp: dec_of_int_def)

lemma append_sep_eq:
  "c \<notin> set x \<Longrightarrow> c \<notin> set y \<Longrightarrow> x @ c # r = y @ c # r' \<Longrightarrow> x = y"
proof (induction x arbitrary: y)
  case Nil
  then show ?case by (cases y) auto
next
  case (Cons a x)
  then show ?case by (cases y) auto
qed

lemma generateChallenge_clock_inj:
  assumes "fst (generateChallenge m a rnd pos) = fst (generateChallenge m' b rnd' pos')"
  shows "a = b"
proof -
  have "dec_of_int (sint a) @ CHR ''_'' # take 16 (bytesToHex (generateRandomBytes rnd pos 16)) =
        dec_of_int (sint b) @ CHR ''_'' # take 16 (bytesToHex (generateRandomBytes rnd' pos' 16))"
    using assms by (simp add: generateChallenge_def Let_def)
  then have "dec_of_int (sint a) = dec_of_int (sint b)"
    using append_sep_eq [OF dec_of_int_no_sep dec_of_int_no_sep] by blast
  then have "sint a = sint b" by (rule dec_of_int_inj)
  then show ?thesis by (rule signed_word_eqI)
qed


lemma generateChallenge_fresh:
  "now \<noteq> now' \<Longrightarrow>
   fst (generateChallenge m now rnd pos) \<noteq> fst (generateChallenge m' now' rnd' pos')"
  using generateChallenge_clock_inj by blast

section \<open>The example server after a repeated challenge\<close>

lemma generateChallenge_repeat:
  "generateChallenge m (sysclock repeat_env) (entropy repeat_env) 0 =
     (first_challenge, m\<lparr>lastChallenge := first_challenge\<rparr>)"
  by (simp add: generateChallenge_def generateRandomBytes_def bytesToHex_def hex_digit_def
      dec_of_int_def dec_of_nat.simps Let_def upt_rec first_challenge_def repeat_env_def)

lemma repeated_station_eq:
  "repeated_station =
     registered_station
       \<lparr>numAuthRequests := 2,
        socketOut := socketOut registered_station @ [(challenge_message first_challenge, 7, 5000)]\<rparr>"
proof -
  have a: "''DRONE_001'' \<in> authorizedDrones" by (simp add: authorizedDrones_def)
  have l: "length ''DRONE_001'' < 2 ^ 32" "length [7, 7, 7 :: byte] < 2 ^ 32" by simp_all
  have v: "registered_verifier\<lparr>lastChallenge := first_challenge\<rparr> = registered_verifier"
    by (simp add: registered_verifier_def)
  show ?thesis
    unfolding repeated_station_def
    using a
    by (simp add: handleAuthRequest_message [OF l] Let_def registered_session
        generateChallenge_repeat sendPacket_def v)
      (simp add: registered_station_eq registered_verifier_def)
qed

section \<open>The request with the broken commitment\<close>

lemma broken_request_idLen: "unat (u32_of_bytes (take 4 (drop 1 broken_request))) = 9"
  by (simp add: broken_request_def u32_of_bytes_def)

lemma broken_request_commitLen:
  "unat (u32_of_bytes (take 4 (drop 14 broken_request))) = 4294967295"
  by (simp add: broken_request_def u32_of_bytes_def length_bytes_of_string)

section \<open>The claims\<close>

subsection \<open>C1: what verifyProof accepts\<close>

text \<open>
  C1 says that an initialised verifier accepts a proof exactly when \<open>proofData\<close> has 32
  bytes, the commitment is the stored one and the timestamp lies within the 5-second
  window of the clock. Lemma \<open>verifyProof_in_range\<close> is that statement wherever the
  64-bit subtraction does not overflow. It fails where it does: the timestamp that lies
  \<open>2 ^ 63\<close> ticks from the clock reading, about 292 years, is accepted, because the
  wrapped difference is the least 64-bit integer, which \<open>abs\<close> leaves negative.
\<close>

theorem verifyProof_accepts_wrapped_timestamp:
  "verifyProof (initializeVerifier ZKPModule_new cm ident)
     \<lparr>proofData = replicate 32 0, commitment = cm, challenge = c,
      timestamp = 10923372036854775808\<rparr> 1700000000000000000 e =
   Inr (True, (initializeVerifier ZKPModule_new cm ident)
                \<lparr>lastStats := (lastStats ZKPModule_new)\<lparr>verificationTime := e\<rparr>\<rparr>)
   \<and> uint (10923372036854775808 :: 64 word) - uint (1700000000000000000 :: 64 word) = 2 ^ 63"
  by (simp add: verifyProof_def initializeVerifier_def ZKPModule_new_def
      SHA256_DIGEST_LENGTH_def abs64_def Let_def)

subsection \<open>C2: bounds checks in the decoders\<close>

text \<open>
  C2 says that every decoder checks each length field against the bytes that remain,
  so that a malformed PROOF message is answered with AUTH_FAILURE or dropped and never
  read out of bounds. \<open>ZKProof::deserialize\<close> checks nothing: a PROOF message whose
  first length field names 16 bytes where one remains, and a PROOF message too short
  to hold a length field, both pass the size test of \<open>handleProof\<close> and end in a read
  past the end of the buffer.
\<close>

theorem handleProof_reads_out_of_bounds:
  "handleMessageWhenUp ev s (Packet [0x03, 0x10, 0, 0, 0, 0xAA] a p) = Inl OutOfBoundsRead
   \<and> handleMessageWhenUp ev s (Packet [0x03, 0xFF] a p) = Inl OutOfBoundsRead"
  by (simp add: handleMessageWhenUp_def handleProof_def deserialize_def read_u32_def
      read_range_def u32_of_bytes_def)

subsection \<open>C3: the pending challenge is cleared on success only\<close>

text \<open>
  C3: when \<open>handleProof\<close> reaches the verification of a proof against the session
  \<open>ident\<close> whose pending challenge the proof names, the handler returns, and
  \<^item> if the proof verifies, the pending challenge of \<open>ident\<close> is erased (and nothing
    else of the pending challenges changes) and AUTH_SUCCESS is sent;
  \<^item> if it does not, the pending challenges are what they were, the same challenge
    still leads to the same session, and AUTH_FAILURE is sent.

  \<open>verifyProof\<close> returns a verdict for every initialised verifier (lemma
  \<open>verifyProof_returns\<close>), and the server holds no other (lemma
  \<open>server_inv_handleAuthRequest\<close>). On every other way through \<open>handleProof\<close>
  the pending challenges stay as they are (lemma \<open>handleProof_pending_frame\<close>).
\<close>

theorem handleProof_clears_challenge_when_valid:
  assumes size: "2 \<le> length data"
    and parsed: "deserialize (drop 1 data) = Inr prf"
    and found: "find_challenge (pendingChallenges s) (challenge prf) = ident"
    and known: "ident \<noteq> []"
    and session: "stdmap_find ident (droneVerifiers s) = Some v"
    and verdict: "verifyProof v prf (sysclock ev) (elapsed_ms ev) = Inr (ok, v')"
  shows "\<exists>s'. handleProof ev s data a p = Inr s' \<and>
           (if ok
            then pendingChallenges s' = stdmap_erase ident (pendingChallenges s) \<and>
                 stdmap_find ident (pendingChallenges s') = None \<and>
                 socketOut s' = socketOut s @ [([0x04], a, p)]
            else pendingChallenges s' = pendingChallenges s \<and>
                 find_challenge (pendingChallenges s') (challenge prf) = ident \<and>
                 socketOut s' = socketOut s @ [([0x05], a, p)])"
  using assms
  by (simp add: handleProof_def Let_def sendAuthSuccess_def sendAuthFailure_def sendPacket_def
      stdmap_find_erase)

text \<open>
  Run on the example server: the honest answer clears the challenge, the answer with
  the ten seconds old timestamp leaves it.
\<close>

theorem handleProof_clears_challenge_when_valid_witness:
  "(\<exists>s'. handleProof later_env registered_station (proof_message answer_proof) 7 5000 = Inr s' \<and>
         pendingChallenges s' = [] \<and>
         socketOut s' = socketOut registered_station @ [([0x04], 7, 5000)])
   \<and> (\<exists>s'. handleProof later_env registered_station (proof_message old_proof) 7 5000 = Inr s' \<and>
         pendingChallenges s' = [(''DRONE_001'', first_challenge)] \<and>
         socketOut s' = socketOut registered_station @ [([0x05], 7, 5000)])"
proof -
  have f1: "find_challenge (pendingChallenges registered_station) (challenge answer_proof) = ''DRONE_001''"
    by (simp add: registered_pending answer_proof_def)
  have f2: "find_challenge (pendingChallenges registered_station) (challenge old_proof) = ''DRONE_001''"
    by (simp add: registered_pending answer_proof_def old_proof_def)
  have k: "''DRONE_001'' \<noteq> []" by simp
  note valid = handleProof_clears_challenge_when_valid
      [OF proof_message_parse [OF answer_proof_lengths] f1 k registered_session
        answer_proof_verdict, of 7 5000]
  note stale = handleProof_clears_challenge_when_valid
      [OF proof_message_parse [OF old_proof_lengths] f2 k registered_session
        old_proof_verdict, of 7 5000]
  have a: "\<exists>s'. handleProof later_env registered_station (proof_message answer_proof) 7 5000 = Inr s' \<and>
         pendingChallenges s' = [] \<and>
         socketOut s' = socketOut registered_station @ [([0x04], 7, 5000)]"
    using valid by (auto simp: registered_pending stdmap_erase_def)
  have b: "\<exists>s'. handleProof later_env registered_station (proof_message old_proof) 7 5000 = Inr s' \<and>
         pendingChallenges s' = [(''DRONE_001'', first_challenge)] \<and>
         socketOut s' = socketOut registered_station @ [([0x05], 7, 5000)]"
    using stale by (auto simp: registered_pending)
  from a b show ?thesis by (rule conjI)
qed

subsection \<open>C4: a request of an unauthorised identity\<close>

text \<open>
  C4, as amended: an AUTH_REQUEST of an identity that is not in the authorisation set
  counts the request, records a failure and sends AUTH_FAILURE to the sender, and
  changes nothing else: no verifier is created, no challenge is generated or stored, no
  address is stored. (C4 as written leaves out the request counter, which every
  request raises before it is parsed.) The request is any buffer from which
  \<open>handleAuthRequest\<close> reads that identity, that is, one that passes the two size
  tests before the identity is compared; what follows the identity, the commitment
  length and the commitment, is not looked at and may be anything.
\<close>

theorem handleAuthRequest_unauthorized:
  assumes "9 \<le> length data"
    and "5 + unat (u32_of_bytes (take 4 (drop 1 data))) + 4 \<le> length data"
    and "string_of_bytes (take (unat (u32_of_bytes (take 4 (drop 1 data)))) (drop 5 data)) = ident"
    and "ident \<notin> authorizedDrones"
  shows "handleAuthRequest ev s data a p =
           s\<lparr>numAuthRequests := numAuthRequests s + 1,
             numAuthFailures := numAuthFailures s + 1,
             socketOut := socketOut s @ [([0x05], a, p)]\<rparr>"
  using assms
  by (simp add: handleAuthRequest_def Let_def sendAuthFailure_def sendPacket_def)

text \<open>
  Run on the request of \<open>DRONE_999\<close> whose commitment overruns the buffer: it is
  refused and counted like any other request of that identity.
\<close>

theorem handleAuthRequest_unauthorized_witness:
  "9 \<le> length broken_request
   \<and> 5 + unat (u32_of_bytes (take 4 (drop 1 broken_request))) + 4 \<le> length broken_request
   \<and> string_of_bytes
       (take (unat (u32_of_bytes (take 4 (drop 1 broken_request)))) (drop 5 broken_request))
       = ''DRONE_999''
   \<and> ''DRONE_999'' \<notin> authorizedDrones
   \<and> length broken_request < 18 + unat (u32_of_bytes (take 4 (drop 14 broken_request)))
   \<and> handleAuthRequest example_env empty_station broken_request 7 5000 =
       empty_station\<lparr>numAuthRequests := 1, numAuthFailures := 1,
                      socketOut := [([0x05], 7, 5000)]\<rparr>"
proof -
  have h1: "9 \<le> length broken_request"
    by (simp add: broken_request_def)
  have h2: "5 + unat (u32_of_bytes (take 4 (drop 1 broken_request))) + 4 \<le> length broken_request"
    unfolding broken_request_idLen by (simp add: broken_request_def length_bytes_of_string)
  have h3: "string_of_bytes
       (take (unat (u32_of_bytes (take 4 (drop 1 broken_request)))) (drop 5 broken_request))
       = ''DRONE_999''"
    unfolding broken_request_idLen
    by (simp add: broken_request_def length_bytes_of_string string_of_bytes_of_string)
  have h4: "''DRONE_999'' \<notin> authorizedDrones" by (simp add: authorizedDrones_def)
  have over: "length broken_request < 18 + unat (u32_of_bytes (take 4 (drop 14 broken_request)))"
    unfolding broken_request_commitLen
    by (simp add: broken_request_def length_bytes_of_string)
  have e: "numAuthRequests empty_station = 0" "numAuthFailures empty_station = 0"
    "socketOut empty_station = []"
    by (simp_all add: empty_station_def)
  show ?thesis
    using h1 h2 h3 h4 over
      handleAuthRequest_unauthorized [OF h1 h2 h3 h4, of example_env empty_station 7 5000]
    by (simp add: e)
qed

text \<open>
  The state after such a request is not the state before it with the failure recorded
  and the AUTH_FAILURE sent: the request counter has moved.
\<close>

theorem handleAuthRequest_unauthorized_counterexample:
  "handleAuthRequest example_env empty_station (auth_request_message ''DRONE_999'' [1, 2, 3]) 7 5000 \<noteq>
     empty_station\<lparr>numAuthFailures := 1, socketOut := [([0x05], 7, 5000)]\<rparr>"
proof -
  have "''DRONE_999'' \<notin> authorizedDrones" by (simp add: authorizedDrones_def)
  then have "numAuthRequests (handleAuthRequest example_env empty_station
      (auth_request_message ''DRONE_999'' [1, 2, 3]) 7 5000) = 1"
    by (simp add: handleAuthRequest_message sendAuthFailure_def sendPacket_def empty_station_def)
  moreover have "numAuthRequests (empty_station\<lparr>numAuthFailures := 1, socketOut := [([0x05], 7, 5000)]\<rparr>) = 0"
    by (simp add: empty_station_def)
  ultimately show ?thesis by (metis zero_neq_one)
qed

subsection \<open>C5: the commitment of a session is kept\<close>

text \<open>
  C5: when an identity has a verifier at the server, a further AUTH_REQUEST of that
  identity, whatever commitment it carries, leaves the commitment stored in the
  verifier as it was, while the pending challenge of the identity becomes the newly
  generated one and its return address the sender of this request.
\<close>

theorem handleAuthRequest_keeps_commitment:
  assumes session: "stdmap_find ident (droneVerifiers s) = Some v"
    and auth: "ident \<in> authorizedDrones"
    and len: "length cm < 2 ^ 32"
  shows "map_option publicCommitment
           (stdmap_find ident
              (droneVerifiers (handleAuthRequest ev s (auth_request_message ident cm) a p)))
           = Some (publicCommitment v)
       \<and> stdmap_find ident
           (pendingChallenges (handleAuthRequest ev s (auth_request_message ident cm) a p))
           = Some (fst (generateChallenge v (sysclock ev) (entropy ev) 0))
       \<and> stdmap_find ident
           (droneAddresses (handleAuthRequest ev s (auth_request_message ident cm) a p))
           = Some (a, p)"
  using assms authorized_length [OF auth]
  by (simp add: handleAuthRequest_message Let_def sendPacket_def stdmap_find_assign
      generateChallenge_def split: prod.splits)

text \<open>
  Run on the example server: a second request of \<open>DRONE_001\<close>, now with the commitment
  \<open>[9, 9]\<close> and from another address, keeps the commitment \<open>[7, 7, 7]\<close>.
\<close>

theorem handleAuthRequest_keeps_commitment_witness:
  "stdmap_find ''DRONE_001'' (droneVerifiers registered_station) = Some registered_verifier
   \<and> ''DRONE_001'' \<in> authorizedDrones
   \<and> length [9, 9 :: byte] < 2 ^ 32
   \<and> map_option publicCommitment
       (stdmap_find ''DRONE_001''
          (droneVerifiers (handleAuthRequest later_env registered_station
             (auth_request_message ''DRONE_001'' [9, 9]) 8 6000)))
       = Some [7, 7, 7]
   \<and> stdmap_find ''DRONE_001''
       (pendingChallenges (handleAuthRequest later_env registered_station
          (auth_request_message ''DRONE_001'' [9, 9]) 8 6000))
       = Some ''CHALLENGE_1700000001000000000_0001020304050607''
   \<and> stdmap_find ''DRONE_001''
       (droneAddresses (handleAuthRequest later_env registered_station
          (auth_request_message ''DRONE_001'' [9, 9]) 8 6000))
       = Some (8, 6000)"
proof -
  have h2: "''DRONE_001'' \<in> authorizedDrones" by (simp add: authorizedDrones_def)
  have h3: "length [9, 9 :: byte] < 2 ^ 32" by simp
  have pc: "publicCommitment registered_verifier = [7, 7, 7]"
    by (simp add: registered_verifier_def initializeVerifier_def)
  show ?thesis
    using registered_session h2 h3
      handleAuthRequest_keeps_commitment [OF registered_session h2 h3, of later_env 8 6000]
    by (simp add: pc later_env_def generateChallenge_later)
qed

subsection \<open>C6: the round trip of a proof\<close>

text \<open>
  C6, as amended: for every proof whose \<open>proofData\<close>, commitment and challenge are each
  shorter than \<open>2 ^ 32\<close> bytes, \<open>deserialize\<close> returns the proof that \<open>serialize\<close>
  was given. (The length prefixes are 32 bits wide, so C6 as written, for any length,
  fails.)
\<close>

theorem deserialize_serialize:
  assumes "length (proofData p) < 2 ^ 32" "length (commitment p) < 2 ^ 32"
    "length (challenge p) < 2 ^ 32"
  shows "deserialize (serialize p) = Inr p"
  using assms by (rule deserialize_serialize_aux)

theorem deserialize_serialize_witness:
  "length (proofData example_proof) < 2 ^ 32 \<and> length (commitment example_proof) < 2 ^ 32 \<and>
   length (challenge example_proof) < 2 ^ 32 \<and>
   deserialize (serialize example_proof) = Inr example_proof"
proof -
  have h: "length (proofData example_proof) < 2 ^ 32" "length (commitment example_proof) < 2 ^ 32"
    "length (challenge example_proof) < 2 ^ 32"
    by (simp_all add: example_proof_def)
  show ?thesis
    using h deserialize_serialize [OF h] by simp
qed

text \<open>
  A proof with \<open>2 ^ 32\<close> bytes of \<open>proofData\<close> is written with the length prefix 0
  and does not come back.
\<close>

theorem deserialize_serialize_counterexample:
  "deserialize (serialize oversized_proof) \<noteq> Inr oversized_proof"
proof
  assume a: "deserialize (serialize oversized_proof) = Inr oversized_proof"
  have "size_u32 (proofData oversized_proof) = 0"
    by (simp add: size_u32_def oversized_proof_def)
  then have "read_u32 (serialize oversized_proof) 0 = Inr 0"
    using read_u32_append [of "[]" 0 "size_u32 (proofData oversized_proof)"]
    by (simp add: serialize_def)
  with deserialize_proofData_length [OF a]
  have "length (proofData oversized_proof) = 0" by simp
  then show False by (simp add: oversized_proof_def)
qed

subsection \<open>C7: a proof against a replaced challenge\<close>

text \<open>
  C7, as amended: let the identity \<open>ident\<close> have a session whose pending challenge is
  \<open>c1\<close>, and let it send a second AUTH_REQUEST. The pending challenge of \<open>ident\<close>
  becomes the challenge generated for the second request. If that challenge differs
  from \<open>c1\<close> and no other session holds \<open>c1\<close>, then \<open>c1\<close> is the pending challenge of
  no session, and a PROOF that names \<open>c1\<close> is answered with the one datagram
  AUTH_FAILURE to its sender and changes nothing else, no counter either.

  C7 as written, without the two conditions, fails: a challenge is the clock reading
  and eight random bytes, and when both repeat the second challenge is the first. Two
  challenges generated at different clock readings differ (lemma
  \<open>generateChallenge_fresh\<close>). The keys of the map are ascending in every state the
  server reaches (lemmas \<open>server_inv_handleAuthRequest\<close>, \<open>server_inv_handleProof\<close>).
\<close>

theorem stale_challenge_rejected:
  assumes session: "stdmap_find ident (droneVerifiers s) = Some v"
    and pending: "stdmap_find ident (pendingChallenges s) = Some c1"
    and inv: "stdmap_inv (pendingChallenges s)"
    and auth: "ident \<in> authorizedDrones"
    and len: "length cm < 2 ^ 32"
    and fresh: "fst (generateChallenge v (sysclock ev) (entropy ev) 0) \<noteq> c1"
    and others: "c1 \<notin> snd ` {kv \<in> set (pendingChallenges s). fst kv \<noteq> ident}"
    and size: "2 \<le> length data"
    and parsed: "deserialize (drop 1 data) = Inr prf"
    and stale: "challenge prf = c1"
  shows "stdmap_find ident
           (pendingChallenges (handleAuthRequest ev s (auth_request_message ident cm) a p))
           = Some (fst (generateChallenge v (sysclock ev) (entropy ev) 0))
       \<and> find_challenge
           (pendingChallenges (handleAuthRequest ev s (auth_request_message ident cm) a p)) c1 = []
       \<and> handleProof ev' (handleAuthRequest ev s (auth_request_message ident cm) a p) data a' p'
           = Inr ((handleAuthRequest ev s (auth_request_message ident cm) a p)
                    \<lparr>socketOut :=
                       socketOut (handleAuthRequest ev s (auth_request_message ident cm) a p)
                       @ [([0x05], a', p')]\<rparr>)"
proof -
  let ?s2 = "handleAuthRequest ev s (auth_request_message ident cm) a p"
  let ?c2 = "fst (generateChallenge v (sysclock ev) (entropy ev) 0)"
  have pc: "pendingChallenges ?s2 = stdmap_assign ident ?c2 (pendingChallenges s)"
    using session auth len authorized_length [OF auth]
    by (simp add: handleAuthRequest_message Let_def sendPacket_def split: prod.splits)
  have "set (pendingChallenges ?s2) =
          insert (ident, ?c2) {kv \<in> set (pendingChallenges s). fst kv \<noteq> ident}"
    unfolding pc using inv by (rule set_stdmap_assign)
  then have "c1 \<notin> snd ` set (pendingChallenges ?s2)"
    using fresh others by auto
  then have none: "find_challenge (pendingChallenges ?s2) c1 = []"
    by (rule find_challenge_none)
  have "stdmap_find ident (pendingChallenges ?s2) = Some ?c2"
    by (simp add: pc stdmap_find_assign)
  moreover have "handleProof ev' ?s2 data a' p' =
      Inr (?s2\<lparr>socketOut := socketOut ?s2 @ [([0x05], a', p')]\<rparr>)"
    using size parsed stale none
    by (simp add: handleProof_def Let_def sendAuthFailure_def sendPacket_def)
  ultimately show ?thesis using none by simp
qed

text \<open>
  Run on the example server: \<open>DRONE_001\<close> asks again one second later, then answers
  the first challenge. The clock has moved, so the second challenge is another one.
\<close>

theorem stale_challenge_rejected_witness:
  "stdmap_find ''DRONE_001'' (pendingChallenges registered_station) = Some first_challenge
   \<and> stdmap_inv (pendingChallenges registered_station)
   \<and> fst (generateChallenge registered_verifier (sysclock later_env) (entropy later_env) 0)
       \<noteq> first_challenge
   \<and> first_challenge
       \<notin> snd ` {kv \<in> set (pendingChallenges registered_station). fst kv \<noteq> ''DRONE_001''}
   \<and> challenge answer_proof = first_challenge
   \<and> stdmap_find ''DRONE_001''
       (pendingChallenges (handleAuthRequest later_env registered_station
          (auth_request_message ''DRONE_001'' [7, 7, 7]) 7 5000))
       = Some ''CHALLENGE_1700000001000000000_0001020304050607''
   \<and> find_challenge
       (pendingChallenges (handleAuthRequest later_env registered_station
          (auth_request_message ''DRONE_001'' [7, 7, 7]) 7 5000)) first_challenge = []
   \<and> handleProof later_env
       (handleAuthRequest later_env registered_station
          (auth_request_message ''DRONE_001'' [7, 7, 7]) 7 5000)
       (proof_message answer_proof) 7 5000
       = Inr ((handleAuthRequest later_env registered_station
                 (auth_request_message ''DRONE_001'' [7, 7, 7]) 7 5000)
                \<lparr>socketOut :=
                   socketOut (handleAuthRequest later_env registered_station
                                (auth_request_message ''DRONE_001'' [7, 7, 7]) 7 5000)
                   @ [([0x05], 7, 5000)]\<rparr>)"
proof -
  have h2: "stdmap_find ''DRONE_001'' (pendingChallenges registered_station) = Some first_challenge"
    by (simp add: registered_pending stdmap_find_def)
  have h3: "stdmap_inv (pendingChallenges registered_station)"
    by (simp add: registered_pending stdmap_inv_def)
  have h4: "''DRONE_001'' \<in> authorizedDrones" by (simp add: authorizedDrones_def)
  have h5: "length [7, 7, 7 :: byte] < 2 ^ 32" by simp
  have clock: "sysclock later_env \<noteq> 1700000000000000000"
    by (simp add: later_env_def)
  have h6: "fst (generateChallenge registered_verifier (sysclock later_env) (entropy later_env) 0)
       \<noteq> first_challenge"
    using generateChallenge_fresh [OF clock, of registered_verifier "entropy later_env" 0
        registered_verifier of_nat 128]
    by (simp add: generateChallenge_example)
  have h7: "first_challenge
       \<notin> snd ` {kv \<in> set (pendingChallenges registered_station). fst kv \<noteq> ''DRONE_001''}"
    by (auto simp: registered_pending)
  have h10: "challenge answer_proof = first_challenge" by (simp add: answer_proof_def)
  note th = stale_challenge_rejected
      [OF registered_session h2 h3 h4 h5 h6 h7 proof_message_parse [OF answer_proof_lengths] h10,
        of 7 5000 later_env 7 5000]
  show ?thesis
    using h2 h3 h6 h7 h10 th by (simp add: later_env_def generateChallenge_later)
qed

text \<open>
  Where the clock has not moved and the random bytes repeat, the second request of
  \<open>DRONE_001\<close> stores the first challenge again: the proof that names it finds the
  session of \<open>DRONE_001\<close> and is answered with AUTH_SUCCESS.
\<close>

theorem stale_challenge_rejected_counterexample:
  "stdmap_find ''DRONE_001'' (pendingChallenges registered_station) = Some (challenge answer_proof)
   \<and> stdmap_find ''DRONE_001'' (pendingChallenges repeated_station) = Some (challenge answer_proof)
   \<and> find_challenge (pendingChallenges repeated_station) (challenge answer_proof) = ''DRONE_001''
   \<and> map_sum id socketOut
       (handleProof later_env repeated_station (proof_message answer_proof) 7 5000)
       = Inr (socketOut repeated_station @ [([0x04], 7, 5000)])"
proof -
  have p: "pendingChallenges repeated_station = [(''DRONE_001'', first_challenge)]"
    by (simp add: repeated_station_eq registered_pending)
  have s: "stdmap_find ''DRONE_001'' (droneVerifiers repeated_station) = Some registered_verifier"
    by (simp add: repeated_station_eq registered_session)
  have c: "challenge answer_proof = first_challenge" by (simp add: answer_proof_def)
  have "handleProof later_env repeated_station (proof_message answer_proof) 7 5000 =
      Inr ((sendAuthSuccess
              (repeated_station
                 \<lparr>droneVerifiers := stdmap_assign ''DRONE_001''
                    (registered_verifier
                       \<lparr>lastStats := (lastStats registered_verifier)\<lparr>verificationTime := 1 / 4\<rparr>\<rparr>)
                    (droneVerifiers repeated_station),
                  numAuthSuccess := numAuthSuccess repeated_station + 1\<rparr>) 7 5000)
            \<lparr>pendingChallenges := stdmap_erase ''DRONE_001'' (pendingChallenges repeated_station)\<rparr>)"
    using proof_message_parse [OF answer_proof_lengths]
    by (simp add: handleProof_def Let_def p c s answer_proof_verdict)
  then show ?thesis
    by (simp add: p c registered_pending stdmap_find_def sendAuthSuccess_def sendPacket_def)
qed

subsection \<open>C8: the timeout and the retry\<close>

text \<open>
  C8: when the timeout message fires (it is armed, so no AUTH_SUCCESS or AUTH_FAILURE
  has cancelled it), the client counts a failure, turns its icon red, discards the
  timeout message, and schedules \<open>selfMsg\<close> for exactly \<open>retryInterval\<close> after the
  time of the timeout; when \<open>selfMsg\<close> fires at that time, an AUTH_REQUEST with the
  client's identity and commitment is sent. The source keeps no state variable: the
  failure counter and the icon are what records the failed attempt. \<open>timer_inv\<close>
  holds in every state the handlers reach from \<open>initialize\<close> (lemmas
  \<open>timers_idle_initialize\<close>, \<open>timer_inv_start\<close>, \<open>timer_inv_step\<close>); the
  intervals are not negative.
\<close>

theorem timeout_schedules_retry:
  assumes inv: "timer_inv app"
    and armed: "timeoutMsg app = Some (Some t)"
    and retry: "0 \<le> retryInterval par"
    and tmo: "0 \<le> authTimeout par"
  shows "app_handleMessageWhenUp H par ev t app (SelfMessage MSG_AUTH_TIMEOUT) =
           Inr (app\<lparr>timeoutMsg := None,
                    app_numAuthFailures := app_numAuthFailures app + 1,
                    parentColour := ''red'',
                    selfMsg := Some (t + retryInterval par)\<rparr>)
       \<and> map_sum id sent
           (app_handleMessageWhenUp H par ev' (t + retryInterval par)
              (app\<lparr>timeoutMsg := None,
                    app_numAuthFailures := app_numAuthFailures app + 1,
                    parentColour := ''red'',
                    selfMsg := Some (t + retryInterval par)\<rparr>)
              (SelfMessage MSG_SEND_AUTH_REQUEST)) =
           Inr (sent app @ [auth_request_message (app_droneId app) (getCommitment (zkpModule app))])"
proof -
  have idle: "selfMsg app = None"
    using inv armed by (simp add: timer_inv_def)
  show ?thesis
    using idle armed retry tmo
    by (simp add: app_handleMessageWhenUp_def handleAuthTimeout_def scheduleAt_selfMsg_def
        sendAuthenticationRequest_def Let_def app_sendPacket_def)
qed

text \<open>
  Run on the waiting client: the timeout fires at time 6, the retry is due at time 16
  and sends the request again.
\<close>

theorem timeout_schedules_retry_witness:
  "timer_inv waiting_app
   \<and> timeoutMsg waiting_app = Some (Some 6)
   \<and> 0 \<le> retryInterval example_params
   \<and> 0 \<le> authTimeout example_params
   \<and> app_handleMessageWhenUp example_hash example_params example_env 6 waiting_app
        (SelfMessage MSG_AUTH_TIMEOUT) =
       Inr (waiting_app\<lparr>timeoutMsg := None, app_numAuthFailures := 1, parentColour := ''red'',
                        selfMsg := Some 16\<rparr>)
   \<and> map_sum id sent
        (app_handleMessageWhenUp example_hash example_params later_env 16
           (waiting_app\<lparr>timeoutMsg := None, app_numAuthFailures := 1, parentColour := ''red'',
                        selfMsg := Some 16\<rparr>)
           (SelfMessage MSG_SEND_AUTH_REQUEST)) =
       Inr [auth_request_message ''DRONE_001'' [7, 7, 7],
            auth_request_message ''DRONE_001'' [7, 7, 7]]"
proof -
  have h1: "timer_inv waiting_app" by (simp add: timer_inv_def waiting_app_def)
  have h2: "timeoutMsg waiting_app = Some (Some 6)" by (simp add: waiting_app_def)
  have h3: "0 \<le> retryInterval example_params" by (simp add: example_params_def)
  have h4: "0 \<le> authTimeout example_params" by (simp add: example_params_def)
  have v: "app_numAuthFailures waiting_app = 0"
    "sent waiting_app = [auth_request_message ''DRONE_001'' [7, 7, 7]]"
    "app_droneId waiting_app = ''DRONE_001''"
    "getCommitment (zkpModule waiting_app) = [7, 7, 7]"
    "retryInterval example_params = 10"
    by (simp_all add: waiting_app_def getCommitment_def example_params_def ZKPModule_new_def)
  note th = timeout_schedules_retry [OF h1 h2 h3 h4, of example_hash example_env later_env]
  show ?thesis
    using h1 h2 h3 h4 th by (simp add: v)
qed

subsection \<open>C9: the statistics of the last verification\<close>

text \<open>
  C9 says that after every call of \<open>verifyProof\<close> on an initialised verifier, also one
  that returns \<open>false\<close>, the statistics hold the time of that call. Each \<open>return false\<close>
  of the source leaves the function before \<open>lastStats\<close> is written: after a rejected
  proof \<open>getLastProofStats\<close> returns what it returned before the call.
\<close>

theorem verifyProof_rejection_keeps_old_stats:
  assumes "verifyProof m prf now e = Inr (False, m')"
  shows "getLastProofStats m' = getLastProofStats m"
  using verifyProof_False_unchanged [OF assms] by simp

theorem verifyProof_rejection_keeps_old_stats_witness:
  "verifyProof example_verifier (example_proof\<lparr>proofData := []\<rparr>) 1700000000000000000 (5 / 2) =
     Inr (False, example_verifier)
   \<and> getLastProofStats example_verifier = getLastProofStats example_verifier
   \<and> verificationTime (getLastProofStats example_verifier) = 0"
proof -
  have h: "verifyProof example_verifier (example_proof\<lparr>proofData := []\<rparr>) 1700000000000000000 (5 / 2) =
     Inr (False, example_verifier)"
    by (simp add: verifyProof_def example_verifier_def example_proof_def initializeVerifier_def
        ZKPModule_new_def SHA256_DIGEST_LENGTH_def)
  have z: "verificationTime (getLastProofStats example_verifier) = 0"
    by (simp add: getLastProofStats_def example_verifier_def initializeVerifier_def
        ZKPModule_new_def)
  from verifyProof_rejection_keeps_old_stats [OF h] z
  have "getLastProofStats example_verifier = getLastProofStats example_verifier
        \<and> verificationTime (getLastProofStats example_verifier) = 0"
    by (rule conjI)
  with h show ?thesis by (rule conjI)
qed

subsection \<open>C10: a challenge is taken in every state\<close>

text \<open>
  C10: whatever the state of the client, a CHALLENGE message replaces the stored
  challenge and schedules a \<open>sendProof\<close> message 0.001 s, one millisecond, after the
  current time; when that message fires, \<open>sendZKProof\<close> runs on the stored
  challenge. AUTH_SUCCESS and AUTH_FAILURE go to their handlers likewise, with no test
  on the state.
\<close>

theorem challenge_accepted_in_every_state:
  assumes "length c < 2 ^ 32"
  shows "app_handleMessageWhenUp H par ev now app (PacketIn (challenge_message c)) =
           Inr (app\<lparr>currentChallenge := c, proofMsgs := proofMsgs app @ [now + 0.001]\<rparr>)
       \<and> app_handleMessageWhenUp H par ev' (now + 0.001)
           (app\<lparr>currentChallenge := c, proofMsgs := proofMsgs app @ [now + 0.001]\<rparr>)
           (SelfMessage MSG_SEND_PROOF) =
           sendZKProof H ev'
             (app\<lparr>currentChallenge := c,
                  proofMsgs := remove1 (now + 0.001) (proofMsgs app @ [now + 0.001])\<rparr>)
       \<and> app_handleMessageWhenUp H par ev now app (PacketIn [0x04]) =
           Inr (handleAuthSuccessMessage app)
       \<and> app_handleMessageWhenUp H par ev now app (PacketIn [0x05]) =
           Inr (handleAuthFailureMessage app)"
proof -
  have "handleIncomingMessage now app (challenge_message c) =
          handleChallengeMessage now app (challenge_message c)"
    by (simp add: handleIncomingMessage_def challenge_message_def)
  then show ?thesis
    using assms
    by (simp add: app_handleMessageWhenUp_def handleChallengeMessage_message
        handleIncomingMessage_def)
qed

text \<open>
  Run on a client that has already been told of its success: the challenge is stored
  and a proof is scheduled all the same.
\<close>

theorem challenge_accepted_in_every_state_witness:
  "length first_challenge < 2 ^ 32
   \<and> app_handleMessageWhenUp example_hash example_params example_env 3
        (handleAuthSuccessMessage waiting_app) (PacketIn (challenge_message first_challenge)) =
       Inr ((handleAuthSuccessMessage waiting_app)
              \<lparr>currentChallenge := first_challenge, proofMsgs := [3 + 0.001]\<rparr>)"
proof -
  have h: "length first_challenge < 2 ^ 32" by (simp add: first_challenge_def)
  have e: "proofMsgs (handleAuthSuccessMessage waiting_app) = []"
    by (simp add: handleAuthSuccessMessage_def waiting_app_def)
  show ?thesis
    using h challenge_accepted_in_every_state [OF h, of example_hash example_params example_env 3
        "handleAuthSuccessMessage waiting_app" example_env]
    by (simp add: e)
qed

end
